theory Spec2Isabelle
  imports Main "HOL-Library.Word" "HOL-Library.Monad_Syntax"
begin

section \<open>The option registry of options/m_config.c\<close>

text \<open>
  A shallow embedding of \<^verbatim>\<open>options/m_config.c\<close>. Every function of the C file that is
  modelled takes the \<^verbatim>\<open>struct m_config\<close> it works on as a record and returns the
  updated record. A result of type \<open>option\<close> is \<open>None\<close> where the C code has no defined
  result: it dereferences a pointer that is not valid (an index outside the array, a
  null pointer), it aborts in an \<^verbatim>\<open>assert\<close>, or it does not return.

  Pointers are modelled by what they identify. A \<^verbatim>\<open>struct m_config_option *\<close> is the
  index of the entry in \<^verbatim>\<open>config->opts\<close>; the pointer \<^verbatim>\<open>co->data\<close> into an option struct
  is an address \<open>addr\<close> of a typed slot, \<open>None\<close> for \<^verbatim>\<open>NULL\<close>; two entries alias the same
  storage exactly when their addresses are equal. Slots that overlap without being
  equal are not modelled. C strings and \<^verbatim>\<open>bstr\<close> values are \<open>string\<close>s.
\<close>

subsection \<open>Constants of the headers\<close>

text \<open>
  Modelled from the spec: the return codes of \<^verbatim>\<open>options/m_option.h\<close>, which is not among
  the sources. The spec (sections 6 and 7) names the kinds unknown-option,
  missing-param, disallowed-param, invalid and exit and says that they are negative;
  the numbers are those of the header. \<^verbatim>\<open>M_OPT_EXIT\<close> is the least of them, which is what
  the comparisons \<^verbatim>\<open>r > M_OPT_EXIT\<close> of the C file rely on.
\<close>

definition M_OPT_UNKNOWN :: int where "M_OPT_UNKNOWN = - 1"
definition M_OPT_MISSING_PARAM :: int where "M_OPT_MISSING_PARAM = - 2"
definition M_OPT_INVALID :: int where "M_OPT_INVALID = - 3"
definition M_OPT_OUT_OF_RANGE :: int where "M_OPT_OUT_OF_RANGE = - 4"
definition M_OPT_DISALLOW_PARAM :: int where "M_OPT_DISALLOW_PARAM = - 5"
definition M_OPT_PARSER_ERR :: int where "M_OPT_PARSER_ERR = - 6"
definition M_OPT_EXIT :: int where "M_OPT_EXIT = - 7"

definition MAX_PROFILE_DEPTH :: int where "MAX_PROFILE_DEPTH = 20"
definition MAX_RECURSION_DEPTH :: int where "MAX_RECURSION_DEPTH = 8"

text \<open>
  The flag words are bit masks in C; every flag is one bit, so a flag word is modelled
  as the set of the flags that are set, \<^verbatim>\<open>flags & F\<close> as membership and \<^verbatim>\<open>flags | F\<close> as
  insertion. Only the flags this file tests are listed.
\<close>

datatype m_type_flag = M_OPT_TYPE_HAS_CHILD | M_OPT_TYPE_ALLOW_WILDCARD

datatype m_opt_flag =
  M_OPT_NOCFG | M_OPT_GLOBAL | M_OPT_PRE_PARSE | M_OPT_FIXED | M_OPT_TERM

datatype m_setopt_flag =
  M_SETOPT_PRE_PARSE_ONLY | M_SETOPT_CHECK_ONLY | M_SETOPT_FROM_CONFIG_FILE
| M_SETOPT_FROM_CMDLINE | M_SETOPT_BACKUP | M_SETOPT_PRESERVE_CMDLINE
| M_SETOPT_NO_FIXED | M_SETOPT_NO_PRE_PARSE

subsection \<open>The data model\<close>

text \<open>
  The code compares \<^verbatim>\<open>co->opt->type\<close> with the addresses of the type objects; the type
  objects themselves live in \<^verbatim>\<open>options/m_option.c\<close>. An option type is its identity and
  its flag word.
\<close>

datatype m_type_id =
  CONF_TYPE_FLAG | CONF_TYPE_CHOICE | m_option_type_aspect | m_option_type_alias
| m_option_type_removed | m_option_type_subconfig | m_option_type_other string

record m_option_type =
  type_id :: m_type_id
  type_flags :: "m_type_flag set"

record m_option =
  opt_type :: m_option_type
  opt_flags :: "m_opt_flag set"
  opt_priv :: "string option"
  deprecation_message :: "string option"

type_synonym addr = nat

record m_config_option =
  co_name :: string
  co_opt :: m_option
  co_data :: "addr option"
  co_group :: int
  shadow_offset :: int
  is_set_from_cmdline :: bool
  is_set_locally :: bool
  warning_was_printed :: bool
  is_hidden :: bool

text \<open>\<^verbatim>\<open>atomic_llong ts\<close>: a 64-bit counter; \<^verbatim>\<open>atomic_fetch_add\<close> wraps around.\<close>

record m_config_group =
  parent_group :: int
  ts :: "64 word"

record m_profile =
  p_name :: string
  p_desc :: "string option"
  p_opts :: "(string \<times> string) list"

record 'v m_opt_backup =
  bk_co :: nat
  bk_backup :: 'v

text \<open>
  Modelled from the spec: the tree node \<^verbatim>\<open>struct mpv_node\<close> of \<^verbatim>\<open>libmpv/client.h\<close>, which is
  not among the sources (section 4.3: the value of a setter call is "text or a typed
  tree-node"). The C file looks at the formats \<^verbatim>\<open>MPV_FORMAT_STRING\<close> and \<^verbatim>\<open>MPV_FORMAT_FLAG\<close>
  only; a node of any other format is \<open>MPV_FORMAT_OTHER\<close> with its content as text.
\<close>

datatype mpv_node =
  MPV_FORMAT_STRING string
| MPV_FORMAT_FLAG int
| MPV_FORMAT_OTHER string

text \<open>
  What the code prints through \<^verbatim>\<open>MP_FATAL\<close>, \<^verbatim>\<open>MP_ERR\<close>, \<^verbatim>\<open>MP_WARN\<close>, \<^verbatim>\<open>MP_INFO\<close> and
  \<^verbatim>\<open>MP_VERBOSE\<close>, one constructor for each message with the values it formats, and the
  call of the message-control hook \<^verbatim>\<open>mp_msg_update_msglevels\<close>.
\<close>

datatype msg =
  Err_include_depth
| Info_no_profiles
| Info_available_profiles "(string \<times> string option) list"
| Err_unknown_profile string
| Info_profile_head string "string option"
| Info_profile_pair int string string
| Info_newline
| Info_option_list
| Warn_replaced string string string
| Fatal_removed string string "string option"
| Warn_deprecated string string string
| Err_nocfg string
| Err_global string
| Verbose_setting string string "m_setopt_flag set"
| Warn_subopts_deprecated string
| Err_suboption string string int
| Err_parsing_suboption string int
| Err_parsing_option string int
| Err_option_not_found string
| Warn_unknown_profile string
| Warn_profile_too_deep
| Update_msglevels
| Warn_no_api_deprecated string
| Verbose_setting_node string mpv_node "m_setopt_flag set" int

text \<open>
  The accesses to the state that the controller shares with the observers (the shadow
  mutex, the shadow buffer, the atomic counters), in the order the code makes them.
\<close>

datatype sync_event =
  Mutex_lock | Mutex_unlock | Shadow_store int | Shadow_load int
| Ts_load int | Ts_fetch_add int

text \<open>
  \<^verbatim>\<open>struct m_config\<close>. \<open>optstruct\<close> is the live storage: the value of every slot of the
  option structs of the root and of its groups. \<open>shadow\<close> is \<open>None\<close> until the shadow is
  created, and then the content of \<^verbatim>\<open>shadow->data\<close>, one slot for each offset.
  \<open>has_global\<close> says whether \<^verbatim>\<open>config->global\<close> is set. The include callback is a
  parameter of the functions that call it (\<open>includefunc\<close> below).
\<close>

record 'v m_config =
  cfg_log :: "msg list"
  opts :: "m_config_option list"
  groups :: "m_config_group list"
  profiles :: "m_profile list"
  profile_depth :: int
  backup_opts :: "'v m_opt_backup list"
  use_profiles :: bool
  is_toplevel :: bool
  recursion_depth :: int
  optstruct :: "addr \<Rightarrow> 'v"
  shadow :: "(int \<Rightarrow> 'v) option"
  has_global :: bool
  subopt_deprecation_warning :: bool
  sync :: "sync_event list"

text \<open>
  \<^verbatim>\<open>struct m_config_cache\<close>: the version seen last, the group, and the config of the
  cache with its own option structs.
\<close>

record 'v m_config_cache =
  cache_ts :: "64 word"
  cache_group :: int
  shadow_config :: "'v m_config"

definition MP_MSG :: "'v m_config \<Rightarrow> msg \<Rightarrow> 'v m_config" where
  "MP_MSG config m = config\<lparr>cfg_log := cfg_log config @ [m]\<rparr>"

definition co_at :: "'v m_config \<Rightarrow> nat \<Rightarrow> m_config_option option" where
  "co_at config n = (if n < length (opts config) then Some (opts config ! n) else None)"

definition co_update ::
  "'v m_config \<Rightarrow> nat \<Rightarrow> (m_config_option \<Rightarrow> m_config_option) \<Rightarrow> 'v m_config" where
  "co_update config n f = config\<lparr>opts := (opts config)[n := f (opts config ! n)]\<rparr>"

text \<open>
  Modelled from the spec: \<^verbatim>\<open>m_option_copy\<close> of \<^verbatim>\<open>options/m_option.h\<close>, which is not among
  the sources: the copy of the type handler, after which the destination slot holds
  the value of the source slot (section 3: a shadow slot is "maintained as a parallel
  copy of the live value, using the type handler's copy semantics").
\<close>

definition m_option_copy :: "m_option \<Rightarrow> 'v \<Rightarrow> 'v" where
  "m_option_copy opt src = src"

subsection \<open>Name resolution\<close>

definition bstr_endswith0 :: "string \<Rightarrow> string \<Rightarrow> bool" where
  "bstr_endswith0 str suffix =
     (length suffix \<le> length str \<and> drop (length str - length suffix) str = suffix)"

definition bstr_startswith0 :: "string \<Rightarrow> string \<Rightarrow> bool" where
  "bstr_startswith0 str pre = (length pre \<le> length str \<and> take (length pre) str = pre)"

text \<open>The test of one entry in the loop of \<^verbatim>\<open>m_config_get_co\<close>.\<close>

definition co_matches :: "m_config_option \<Rightarrow> string \<Rightarrow> bool" where
  "co_matches co name =
     (if M_OPT_TYPE_ALLOW_WILDCARD \<in> type_flags (opt_type (co_opt co))
         \<and> bstr_endswith0 (co_name co) ''*''
      then take (length (co_name co) - 1) name = take (length (co_name co) - 1) (co_name co)
      else co_name co = name)"

text \<open>The loop of \<^verbatim>\<open>m_config_get_co\<close>: the index of the first entry that matches.\<close>

fun first_match :: "m_config_option list \<Rightarrow> string \<Rightarrow> nat option" where
  "first_match [] name = None"
| "first_match (co # cos) name =
     (if co_matches co name then Some 0 else map_option Suc (first_match cos name))"

definition toplevel_prefix :: "'v m_config \<Rightarrow> string" where
  "toplevel_prefix config = (if is_toplevel config then ''--'' else '''')"

definition alias_target :: "m_config_option \<Rightarrow> string" where
  "alias_target co = (case opt_priv (co_opt co) of None \<Rightarrow> [] | Some a \<Rightarrow> a)"

text \<open>The one-shot warning of an entry: printed, and the entry marked, at most once.\<close>

definition warn_once :: "'v m_config \<Rightarrow> nat \<Rightarrow> msg \<Rightarrow> 'v m_config" where
  "warn_once config n m =
     (if warning_was_printed (opts config ! n) then config
      else co_update (MP_MSG config m) n (\<lambda>co. co\<lparr>warning_was_printed := True\<rparr>))"

text \<open>
  \<^verbatim>\<open>m_config_get_co\<close>. The result is the entry (\<open>None\<close> for \<^verbatim>\<open>NULL\<close>) and the config with the
  warnings printed. An alias recurses on its target, so a cycle of aliases never
  returns: the function is a partial one.
\<close>

partial_function (option) m_config_get_co ::
  "'v m_config \<Rightarrow> string \<Rightarrow> (nat option \<times> 'v m_config) option" where
  "m_config_get_co config name =
     (if name = [] then Some (None, config)
      else case first_match (opts config) name of
        None \<Rightarrow> Some (None, config)
      | Some n \<Rightarrow>
          if type_id (opt_type (co_opt (opts config ! n))) = m_option_type_alias then
            m_config_get_co
              (if deprecation_message (co_opt (opts config ! n)) \<noteq> None
               then warn_once config n
                      (Warn_replaced (toplevel_prefix config) (co_name (opts config ! n))
                         (alias_target (opts config ! n)))
               else config)
              (alias_target (opts config ! n))
          else if type_id (opt_type (co_opt (opts config ! n))) = m_option_type_removed then
            Some (None, warn_once config n
                    (Fatal_removed (toplevel_prefix config) (co_name (opts config ! n))
                       (opt_priv (co_opt (opts config ! n)))))
          else if deprecation_message (co_opt (opts config ! n)) \<noteq> None then
            Some (Some n, warn_once config n
                    (Warn_deprecated (toplevel_prefix config) (co_name (opts config ! n))
                       (the (deprecation_message (co_opt (opts config ! n))))))
          else Some (Some n, config))"

subsection \<open>The backup stack\<close>

text \<open>
  The loop of \<^verbatim>\<open>ensure_backup\<close> over the stack: whether an entry of the stack has the
  same \<^verbatim>\<open>data\<close> pointer.
\<close>

fun backup_has_data ::
  "m_config_option list \<Rightarrow> 'v m_opt_backup list \<Rightarrow> addr option \<Rightarrow> bool option" where
  "backup_has_data cos [] d = Some False"
| "backup_has_data cos (cur # rest) d =
     (if bk_co cur < length cos
      then (if co_data (cos ! bk_co cur) = d then Some True else backup_has_data cos rest d)
      else None)"

definition ensure_backup :: "'v m_config \<Rightarrow> nat \<Rightarrow> 'v m_config option" where
  "ensure_backup config n =
     (case co_at config n of
        None \<Rightarrow> None
      | Some co \<Rightarrow>
          if M_OPT_TYPE_HAS_CHILD \<in> type_flags (opt_type (co_opt co)) then Some config
          else if M_OPT_GLOBAL \<in> opt_flags (co_opt co) then Some config
          else case co_data co of
            None \<Rightarrow> Some config
          | Some a \<Rightarrow>
              (case backup_has_data (opts config) (backup_opts config) (co_data co) of
                 None \<Rightarrow> None
               | Some True \<Rightarrow> Some config
               | Some False \<Rightarrow>
                   Some (co_update
                     (config\<lparr>backup_opts :=
                        \<lparr>bk_co = n, bk_backup = m_option_copy (co_opt co) (optstruct config a)\<rparr>
                          # backup_opts config\<rparr>)
                     n (\<lambda>co. co\<lparr>is_set_locally := True\<rparr>))))"

function m_config_restore_backups :: "'v m_config \<Rightarrow> 'v m_config option" where
  "m_config_restore_backups config =
     (case backup_opts config of
        [] \<Rightarrow> Some config
      | bc # rest \<Rightarrow>
          (case co_at config (bk_co bc) of
             None \<Rightarrow> None
           | Some co \<Rightarrow>
               (case co_data co of
                  None \<Rightarrow> None
                | Some a \<Rightarrow>
                    m_config_restore_backups
                      (co_update
                         (config\<lparr>backup_opts := rest,
                            optstruct := (optstruct config)
                              (a := m_option_copy (co_opt co) (bk_backup bc))\<rparr>)
                         (bk_co bc) (\<lambda>co. co\<lparr>is_set_locally := False\<rparr>)))))"
  by pat_completeness auto
termination
  by (relation "measure (\<lambda>config. length (backup_opts config))")
    (auto simp: co_update_def)

declare m_config_restore_backups.simps [simp del]

subsection \<open>Change notification, shadow and cache\<close>

text \<open>
  The loop of \<^verbatim>\<open>m_config_notify_change_co\<close> over the groups, from \<open>g\<close> to the root. It
  ends when the chain of parents reaches a negative index; on a cyclic chain it never
  ends.
\<close>

partial_function (option) notify_groups :: "'v m_config \<Rightarrow> int \<Rightarrow> 'v m_config option" where
  "notify_groups config g =
     (if g \<ge> 0 then
        (if nat g < length (groups config) then
           notify_groups
             (config\<lparr>groups := (groups config)
                        [nat g := (groups config ! nat g)\<lparr>ts := ts (groups config ! nat g) + 1\<rparr>],
                     sync := sync config @ [Ts_fetch_add g]\<rparr>)
             (parent_group (groups config ! nat g))
         else None)
      else Some config)"

definition m_config_notify_change_co :: "'v m_config \<Rightarrow> nat \<Rightarrow> 'v m_config option" where
  "m_config_notify_change_co config n =
     (case co_at config n of
        None \<Rightarrow> None
      | Some co \<Rightarrow>
          (case (case shadow config of
                   None \<Rightarrow> Some config
                 | Some sh \<Rightarrow>
                     (case (if shadow_offset co \<ge> 0 then
                              (case co_data co of
                                 None \<Rightarrow> None
                               | Some a \<Rightarrow>
                                   Some (config\<lparr>shadow := Some (sh(shadow_offset co :=
                                                  m_option_copy (co_opt co) (optstruct config a))),
                                           sync := sync config
                                             @ [Mutex_lock, Shadow_store (shadow_offset co)]\<rparr>))
                            else Some (config\<lparr>sync := sync config @ [Mutex_lock]\<rparr>)) of
                        None \<Rightarrow> None
                      | Some config1 \<Rightarrow>
                          notify_groups (config1\<lparr>sync := sync config1 @ [Mutex_unlock]\<rparr>)
                            (co_group co))) of
             None \<Rightarrow> None
           | Some config2 \<Rightarrow>
               Some (if has_global config \<and> M_OPT_TERM \<in> opt_flags (co_opt co)
                     then MP_MSG config2 Update_msglevels else config2)))"

text \<open>
  The loop of \<^verbatim>\<open>m_config_cache_update\<close> over the entries of the cache's config: the
  option structs of the cache and the loads from the shadow buffer made.
\<close>

fun cache_copy_opts ::
  "m_config_option list \<Rightarrow> (int \<Rightarrow> 'v) \<Rightarrow> (addr \<Rightarrow> 'v) \<Rightarrow> sync_event list
     \<Rightarrow> ((addr \<Rightarrow> 'v) \<times> sync_event list) option" where
  "cache_copy_opts [] sh mem tr = Some (mem, tr)"
| "cache_copy_opts (co # cos) sh mem tr =
     (if shadow_offset co \<ge> 0 then
        (case co_data co of
           None \<Rightarrow> None
         | Some a \<Rightarrow>
             cache_copy_opts cos sh
               (mem(a := m_option_copy (co_opt co) (sh (shadow_offset co))))
               (tr @ [Shadow_load (shadow_offset co)]))
      else cache_copy_opts cos sh mem tr)"

text \<open>
  \<^verbatim>\<open>m_config_cache_update\<close>. \<open>root\<close> is \<^verbatim>\<open>cache->shadow->root\<close>, the config that owns the
  shadow; the result is the returned flag, the root (only its \<open>sync\<close> changes) and the
  cache.
\<close>

definition m_config_cache_update ::
  "'v m_config \<Rightarrow> 'v m_config_cache \<Rightarrow> (bool \<times> 'v m_config \<times> 'v m_config_cache) option" where
  "m_config_cache_update root cache =
     (case shadow root of
        None \<Rightarrow> None
      | Some sh \<Rightarrow>
          if cache_group cache < 0 \<or> nat (cache_group cache) \<ge> length (groups root) then None
          else if ts (groups root ! nat (cache_group cache)) \<le>s cache_ts cache
          then Some (False, root\<lparr>sync := sync root @ [Ts_load (cache_group cache)]\<rparr>, cache)
          else
            (case cache_copy_opts (opts (shadow_config cache)) sh
                    (optstruct (shadow_config cache))
                    (sync root @ [Ts_load (cache_group cache), Mutex_lock,
                                  Ts_load (cache_group cache)]) of
               None \<Rightarrow> None
             | Some (mem, tr) \<Rightarrow>
                 Some (True, root\<lparr>sync := tr @ [Mutex_unlock]\<rparr>,
                       cache\<lparr>cache_ts := ts (groups root ! nat (cache_group cache)),
                             shadow_config := (shadow_config cache)\<lparr>optstruct := mem\<rparr>\<rparr>)))"

subsection \<open>Flag gating and the raw setter\<close>

text \<open>\<^verbatim>\<open>handle_set_opt_flags\<close>: below 0 an error, 0 skip, 1 check, 2 set.\<close>

definition handle_set_opt_flags ::
  "'v m_config \<Rightarrow> nat \<Rightarrow> m_setopt_flag set \<Rightarrow> (int \<times> 'v m_config) option" where
  "handle_set_opt_flags config n flags =
     (case co_at config n of
        None \<Rightarrow> None
      | Some co \<Rightarrow>
          let optflags = opt_flags (co_opt co);
              set0 = (M_SETOPT_CHECK_ONLY \<notin> flags);
              set1 = (if M_SETOPT_PRESERVE_CMDLINE \<in> flags \<and> is_set_from_cmdline co
                      then False else set0)
          in
          if M_SETOPT_PRE_PARSE_ONLY \<in> flags \<and> M_OPT_PRE_PARSE \<notin> optflags
          then Some (0, config)
          else if M_SETOPT_NO_FIXED \<in> flags \<and> M_OPT_FIXED \<in> optflags
          then Some (M_OPT_INVALID, config)
          else if M_SETOPT_NO_PRE_PARSE \<in> flags \<and> M_OPT_PRE_PARSE \<in> optflags
          then Some (M_OPT_INVALID, config)
          else if M_SETOPT_FROM_CONFIG_FILE \<in> flags \<and> M_OPT_NOCFG \<in> optflags
          then Some (M_OPT_INVALID, MP_MSG config (Err_nocfg (co_name co)))
          else if M_SETOPT_BACKUP \<in> flags then
            (if M_OPT_GLOBAL \<in> optflags
             then Some (M_OPT_INVALID, MP_MSG config (Err_global (co_name co)))
             else if set1 then
               (case ensure_backup config n of
                  None \<Rightarrow> None
                | Some config1 \<Rightarrow> Some (2, config1))
             else Some (1, config))
          else Some (if set1 then 2 else 1, config))"

definition handle_on_set ::
  "'v m_config \<Rightarrow> nat \<Rightarrow> m_setopt_flag set \<Rightarrow> 'v m_config option" where
  "handle_on_set config n flags =
     m_config_notify_change_co
       (if M_SETOPT_FROM_CMDLINE \<in> flags
        then co_update config n (\<lambda>co. co\<lparr>is_set_from_cmdline := True\<rparr>)
        else config) n"

text \<open>
  \<^verbatim>\<open>m_config_set_option_raw\<close>. \<open>co\<close> is the entry or \<open>None\<close> for \<^verbatim>\<open>NULL\<close>; \<open>v\<close> is the value
  \<^verbatim>\<open>data\<close> points to.
\<close>

definition m_config_set_option_raw ::
  "'v m_config \<Rightarrow> nat option \<Rightarrow> 'v \<Rightarrow> m_setopt_flag set \<Rightarrow> (int \<times> 'v m_config) option" where
  "m_config_set_option_raw config co v flags =
     (case co of
        None \<Rightarrow> Some (M_OPT_UNKNOWN, config)
      | Some n \<Rightarrow>
          (case co_at config n of
             None \<Rightarrow> None
           | Some e \<Rightarrow>
               (case co_data e of
                  None \<Rightarrow> Some (M_OPT_UNKNOWN, config)
                | Some a \<Rightarrow>
                    (case handle_set_opt_flags config n flags of
                       None \<Rightarrow> None
                     | Some (r, config1) \<Rightarrow>
                         if r \<le> 1 then Some (r, config1)
                         else
                           (case handle_on_set
                                   (config1\<lparr>optstruct := (optstruct config1)
                                      (a := m_option_copy (co_opt e) v)\<rparr>) n flags of
                              None \<Rightarrow> None
                            | Some config2 \<Rightarrow> Some (0, config2))))))"

subsection \<open>Profiles\<close>

text \<open>
  The list \<^verbatim>\<open>config->profiles\<close>, head first; a new profile is linked in at the head.
  A \<^verbatim>\<open>struct m_profile *\<close> is the position of the profile counted from the end of the
  list, which stays the same when profiles are added.
\<close>

fun get_profile_from :: "m_profile list \<Rightarrow> string \<Rightarrow> nat option" where
  "get_profile_from [] name = None"
| "get_profile_from (p # ps) name =
     (if name = p_name p then Some (length ps) else get_profile_from ps name)"

definition profile_at :: "'v m_config \<Rightarrow> nat \<Rightarrow> m_profile option" where
  "profile_at config p =
     (if p < length (profiles config) then Some (rev (profiles config) ! p) else None)"

definition m_config_get_profile :: "'v m_config \<Rightarrow> string \<Rightarrow> nat option" where
  "m_config_get_profile config name = get_profile_from (profiles config) name"

definition m_config_get_profile0 :: "'v m_config \<Rightarrow> string \<Rightarrow> nat option" where
  "m_config_get_profile0 config name = m_config_get_profile config name"

text \<open>\<^verbatim>\<open>m_config_add_profile\<close>; \<open>name\<close> is \<open>None\<close> for a \<^verbatim>\<open>NULL\<close> pointer.\<close>

definition m_config_add_profile ::
  "'v m_config \<Rightarrow> string option \<Rightarrow> nat option \<times> 'v m_config" where
  "m_config_add_profile config name =
     (case name of
        None \<Rightarrow> (None, config)
      | Some nm \<Rightarrow>
          if nm = [] \<or> nm = ''default'' then (None, config)
          else case m_config_get_profile0 config nm of
            Some p \<Rightarrow> (Some p, config)
          | None \<Rightarrow>
              (Some (length (profiles config)),
               config\<lparr>profiles :=
                 \<lparr>p_name = nm, p_desc = None, p_opts = []\<rparr> # profiles config\<rparr>))"

subsection \<open>The include meta-option\<close>

text \<open>
  \<^verbatim>\<open>parse_include\<close>. \<open>includefunc\<close> is \<^verbatim>\<open>config->includefunc\<close> with its context, \<open>None\<close> for a
  null pointer: the callback gets the file name and the flags and works on the config;
  \<open>None\<close> as its result says that it does not return.
\<close>

type_synonym 'v includefunc =
  "string \<Rightarrow> m_setopt_flag set \<Rightarrow> 'v m_config \<Rightarrow> 'v m_config option"

definition parse_include ::
  "'v includefunc option \<Rightarrow> 'v m_config \<Rightarrow> string \<Rightarrow> bool \<Rightarrow> m_setopt_flag set
     \<Rightarrow> (int \<times> 'v m_config) option" where
  "parse_include incl config param do_set flags =
     (if length param = 0 then Some (M_OPT_MISSING_PARAM, config)
      else if \<not> do_set then Some (1, config)
      else if recursion_depth config \<ge> MAX_RECURSION_DEPTH
      then Some (M_OPT_INVALID, MP_MSG config Err_include_depth)
      else case incl of
        None \<Rightarrow> None
      | Some f \<Rightarrow>
          (case f param flags (config\<lparr>recursion_depth := recursion_depth config + 1\<rparr>) of
             None \<Rightarrow> None
           | Some config1 \<Rightarrow>
               Some (1, config1\<lparr>recursion_depth := recursion_depth config1 - 1\<rparr>)))"

subsection \<open>The setter pipeline\<close>

text \<open>
  The type handlers and the include callback, which the sources do not contain.
  \<open>m_option_parse opt name param dst\<close> is the parser of the type of \<open>opt\<close>: \<open>dst\<close> is the
  value of the destination slot, \<open>None\<close> for a null destination, and the result is the
  return code and the value the slot holds afterwards. \<open>string_list_parse\<close> is the parser
  of \<^verbatim>\<open>m_option_type_string_list\<close> with the list it leaves (empty for a null or empty
  list), \<open>subconfig_parse\<close> that of \<^verbatim>\<open>m_option_type_subconfig\<close> with the pairs it leaves.
\<close>

record 'v m_externals =
  includefunc :: "'v includefunc option"
  m_option_parse :: "m_option \<Rightarrow> string \<Rightarrow> string \<Rightarrow> 'v option \<Rightarrow> int \<times> 'v"
  string_list_parse :: "m_option \<Rightarrow> string \<Rightarrow> string \<Rightarrow> int \<times> string list"
  subconfig_parse :: "string \<Rightarrow> int \<times> (string \<times> string) list"

text \<open>
  \<^verbatim>\<open>list_options\<close>: \<^verbatim>\<open>m_config_print_option_list\<close> only prints; the listing is one message
  here.
\<close>

definition list_options :: "'v m_config \<Rightarrow> (int \<times> 'v m_config) option" where
  "list_options config = Some (M_OPT_EXIT, MP_MSG config Info_option_list)"

text \<open>
  \<^verbatim>\<open>show_profile\<close> calls itself, and its \<^verbatim>\<open>while\<close> loop need not end. The first
  argument bounds the number of nested calls and of rounds of the loops; \<open>None\<close> is the
  result when the bound is used up.

  \<^verbatim>\<open>show_profile\<close>, the loop over the pairs of the profile (from pair \<open>i\<close> on) and the
  \<^verbatim>\<open>while\<close> loop over the comma-separated value of a pair named \<^verbatim>\<open>profile\<close>.
\<close>

fun show_profile :: "nat \<Rightarrow> 'v m_config \<Rightarrow> string \<Rightarrow> (int \<times> 'v m_config) option"
  and show_profile_opts :: "nat \<Rightarrow> 'v m_config \<Rightarrow> nat \<Rightarrow> nat \<Rightarrow> 'v m_config option"
  and show_profile_list :: "nat \<Rightarrow> 'v m_config \<Rightarrow> string \<Rightarrow> 'v m_config option"
where
  "show_profile 0 config param = None"
| "show_profile (Suc k) config param =
     (if length param = 0 then Some (M_OPT_MISSING_PARAM, config)
      else case m_config_get_profile config param of
        None \<Rightarrow> Some (M_OPT_EXIT - 1, MP_MSG config (Err_unknown_profile param))
      | Some p \<Rightarrow>
          (case profile_at config p of
             None \<Rightarrow> None
           | Some pr \<Rightarrow>
               (case show_profile_opts k
                       ((if profile_depth config = 0
                         then MP_MSG config (Info_profile_head (p_name pr) (p_desc pr))
                         else config)\<lparr>profile_depth := profile_depth config + 1\<rparr>) p 0 of
                  None \<Rightarrow> None
                | Some config1 \<Rightarrow>
                    Some (M_OPT_EXIT - 1,
                          if profile_depth config1 - 1 = 0
                          then MP_MSG (config1\<lparr>profile_depth := profile_depth config1 - 1\<rparr>)
                                 Info_newline
                          else config1\<lparr>profile_depth := profile_depth config1 - 1\<rparr>))))"
| "show_profile_opts 0 config p i = None"
| "show_profile_opts (Suc k) config p i =
     (case profile_at config p of
        None \<Rightarrow> None
      | Some pr \<Rightarrow>
          if i < length (p_opts pr) then
            (case (if profile_depth config < MAX_PROFILE_DEPTH
                      \<and> fst (p_opts pr ! i) = ''profile''
                   then show_profile_list k
                          (MP_MSG config (Info_profile_pair (profile_depth config)
                             (fst (p_opts pr ! i)) (snd (p_opts pr ! i))))
                          (snd (p_opts pr ! i))
                   else Some (MP_MSG config (Info_profile_pair (profile_depth config)
                             (fst (p_opts pr ! i)) (snd (p_opts pr ! i))))) of
               None \<Rightarrow> None
             | Some config1 \<Rightarrow> show_profile_opts k config1 p (i + 1))
          else Some config)"
| "show_profile_list 0 config lst = None"
| "show_profile_list (Suc k) config lst =
     (if CHR '','' \<in> set lst then
        (if length (takeWhile (\<lambda>c. c \<noteq> CHR '','') lst) = 0
         then show_profile_list k config lst
         else case show_profile k config (takeWhile (\<lambda>c. c \<noteq> CHR '','') lst) of
           None \<Rightarrow> None
         | Some (r, config1) \<Rightarrow>
             show_profile_list k config1
               (drop (length (takeWhile (\<lambda>c. c \<noteq> CHR '','') lst) + 1) lst))
      else if lst \<noteq> [] then
        (case show_profile k config lst of
           None \<Rightarrow> None
         | Some (r, config1) \<Rightarrow> Some config1)
      else Some config)"

text \<open>
  \<^verbatim>\<open>m_config_find_negation_opt\<close>. The \<^verbatim>\<open>assert\<close> resolves the name once more. The result is
  the entry, the name as \<^verbatim>\<open>bstr_eatstart0\<close> leaves it, and the config.
\<close>

definition is_negatable :: "m_config_option \<Rightarrow> bool" where
  "is_negatable co =
     (\<not> (type_id (opt_type (co_opt co)) \<noteq> CONF_TYPE_FLAG
         \<and> type_id (opt_type (co_opt co)) \<noteq> CONF_TYPE_CHOICE
         \<and> type_id (opt_type (co_opt co)) \<noteq> m_option_type_aspect))"

definition m_config_find_negation_opt ::
  "'v m_config \<Rightarrow> string \<Rightarrow> (nat option \<times> string \<times> 'v m_config) option" where
  "m_config_find_negation_opt config name =
     (case m_config_get_co config name of
        None \<Rightarrow> None
      | Some (Some n, config1) \<Rightarrow> None
      | Some (None, config1) \<Rightarrow>
          if \<not> bstr_startswith0 name ''no-'' then Some (None, name, config1)
          else case m_config_get_co config1 (drop 3 name) of
            None \<Rightarrow> None
          | Some (None, config2) \<Rightarrow> Some (None, drop 3 name, config2)
          | Some (Some n, config2) \<Rightarrow>
              (case co_at config2 n of
                 None \<Rightarrow> None
               | Some co \<Rightarrow>
                   Some (if is_negatable co then Some n else None, drop 3 name, config2)))"

text \<open>
  \<^verbatim>\<open>m_config_parse_option\<close>, \<^verbatim>\<open>parse_profile\<close>, \<^verbatim>\<open>parse_subopts\<close>,
  \<^verbatim>\<open>m_config_set_option_ext\<close> and \<^verbatim>\<open>m_config_set_profile\<close> call each other. Each of them
  is first written with the function that stands for its calls of
  \<^verbatim>\<open>m_config_parse_option\<close> as the argument \<open>parse\<close> (the definitions named \<open>_with\<close>);
  \<open>m_config_parse_option\<close> then ties the knot by recursion on the bound \<open>k\<close>, which
  bounds the nesting of \<^verbatim>\<open>m_config_parse_option\<close> and the rounds of the loop of
  \<^verbatim>\<open>m_config_set_profile\<close>.
\<close>

type_synonym 'v setter =
  "'v m_config \<Rightarrow> string \<Rightarrow> string \<Rightarrow> m_setopt_flag set \<Rightarrow> (int \<times> 'v m_config) option"

definition m_config_set_option_ext_with :: "'v setter \<Rightarrow> 'v setter" where
  "m_config_set_option_ext_with parse config name param flags =
     (case parse config name param flags of
        None \<Rightarrow> None
      | Some (r, config1) \<Rightarrow>
          if r < 0 \<and> r > M_OPT_EXIT
          then Some (M_OPT_INVALID, MP_MSG config1 (Err_parsing_option name r))
          else Some (r, config1))"

text \<open>
  The loop of \<^verbatim>\<open>m_config_set_profile\<close> from pair \<open>i\<close> on. It reads the profile \<open>p\<close> again
  in every round, as the C loop does.
\<close>

primrec set_profile_loop ::
  "'v setter \<Rightarrow> nat \<Rightarrow> 'v m_config \<Rightarrow> nat \<Rightarrow> nat \<Rightarrow> m_setopt_flag set \<Rightarrow> 'v m_config option"
where
  "set_profile_loop parse 0 config p i flags = None"
| "set_profile_loop parse (Suc k) config p i flags =
     (case profile_at config p of
        None \<Rightarrow> None
      | Some pr \<Rightarrow>
          if i < length (p_opts pr) then
            (case m_config_set_option_ext_with parse config (fst (p_opts pr ! i))
                    (snd (p_opts pr ! i)) (insert M_SETOPT_FROM_CONFIG_FILE flags) of
               None \<Rightarrow> None
             | Some (r, config1) \<Rightarrow> set_profile_loop parse k config1 p (i + 1) flags)
          else Some config)"

definition m_config_set_profile_with ::
  "'v setter \<Rightarrow> nat \<Rightarrow> 'v m_config \<Rightarrow> string \<Rightarrow> m_setopt_flag set
     \<Rightarrow> (int \<times> 'v m_config) option" where
  "m_config_set_profile_with parse k config name flags =
     (case m_config_get_profile0 config name of
        None \<Rightarrow> Some (M_OPT_INVALID, MP_MSG config (Warn_unknown_profile name))
      | Some p \<Rightarrow>
          if profile_depth config > MAX_PROFILE_DEPTH
          then Some (M_OPT_UNKNOWN, MP_MSG config Warn_profile_too_deep)
          else
            (case set_profile_loop parse k
                    (config\<lparr>profile_depth := profile_depth config + 1\<rparr>) p 0 flags of
               None \<Rightarrow> None
             | Some config1 \<Rightarrow>
                 Some (0, config1\<lparr>profile_depth := profile_depth config1 - 1\<rparr>)))"

text \<open>The loop of \<^verbatim>\<open>parse_profile\<close> over the list of profile names.\<close>

fun parse_profile_loop ::
  "'v setter \<Rightarrow> nat \<Rightarrow> 'v m_config \<Rightarrow> string list \<Rightarrow> int \<Rightarrow> bool \<Rightarrow> m_setopt_flag set
     \<Rightarrow> (int \<times> 'v m_config) option" where
  "parse_profile_loop parse k config [] r do_set flags = Some (r, config)"
| "parse_profile_loop parse k config (x # xs) r do_set flags =
     (if do_set then
        (case m_config_set_profile_with parse k config x flags of
           None \<Rightarrow> None
         | Some (r1, config1) \<Rightarrow>
             if r1 < 0 then Some (r1, config1)
             else parse_profile_loop parse k config1 xs r1 do_set flags)
      else if r < 0 then Some (r, config)
      else parse_profile_loop parse k config xs r do_set flags)"

definition parse_profile_with ::
  "'v setter \<Rightarrow> nat \<Rightarrow> 'v m_externals \<Rightarrow> 'v m_config \<Rightarrow> m_option \<Rightarrow> string \<Rightarrow> string
     \<Rightarrow> bool \<Rightarrow> m_setopt_flag set \<Rightarrow> (int \<times> 'v m_config) option" where
  "parse_profile_with parse k ext config opt name param do_set flags =
     (if param = ''help'' then
        (if profiles config = [] then Some (M_OPT_EXIT - 1, MP_MSG config Info_no_profiles)
         else Some (M_OPT_EXIT - 1,
                MP_MSG config (Info_available_profiles
                  (map (\<lambda>p. (p_name p, p_desc p)) (profiles config)))))
      else if fst (string_list_parse ext opt name param) < 0
      then Some (fst (string_list_parse ext opt name param), config)
      else if snd (string_list_parse ext opt name param) = []
      then Some (M_OPT_INVALID, config)
      else parse_profile_loop parse k config (snd (string_list_parse ext opt name param))
             (fst (string_list_parse ext opt name param)) do_set flags)"

text \<open>
  The loop of \<^verbatim>\<open>parse_subopts\<close> over the pairs; \<^verbatim>\<open>abort\<close> is called when the full name
  has more than 100 characters.
\<close>

fun parse_subopts_loop ::
  "'v setter \<Rightarrow> 'v m_config \<Rightarrow> string \<Rightarrow> string \<Rightarrow> (string \<times> string) list \<Rightarrow> int
     \<Rightarrow> m_setopt_flag set \<Rightarrow> (int \<times> 'v m_config) option" where
  "parse_subopts_loop parse config name pre [] r flags = Some (r, config)"
| "parse_subopts_loop parse config name pre (kv # rest) r flags =
     (if length (pre @ fst kv) > 100 then None
      else case parse config (pre @ fst kv) (snd kv) flags of
        None \<Rightarrow> None
      | Some (r1, config1) \<Rightarrow>
          if r1 < 0 then
            (if r1 > M_OPT_EXIT
             then Some (M_OPT_INVALID, MP_MSG config1 (Err_suboption name (fst kv) r1))
             else Some (r1, config1))
          else parse_subopts_loop parse config1 name pre rest r1 flags)"

definition parse_subopts_with ::
  "'v setter \<Rightarrow> 'v m_externals \<Rightarrow> 'v m_config \<Rightarrow> string \<Rightarrow> string \<Rightarrow> string
     \<Rightarrow> m_setopt_flag set \<Rightarrow> (int \<times> 'v m_config) option" where
  "parse_subopts_with parse ext config name pre param flags =
     (if fst (subconfig_parse ext param) < 0
      then Some (fst (subconfig_parse ext param), config)
      else parse_subopts_loop parse config name pre (snd (subconfig_parse ext param))
             (fst (subconfig_parse ext param)) flags)"

text \<open>
  The last step of \<^verbatim>\<open>m_config_parse_option\<close>: \<^verbatim>\<open>m_option_parse\<close> into the live slot (no
  destination when the call only checks, or when the entry has no storage), then
  \<^verbatim>\<open>handle_on_set\<close> after a successful set.
\<close>

definition parse_into_slot ::
  "'v m_externals \<Rightarrow> 'v m_config \<Rightarrow> nat \<Rightarrow> m_config_option \<Rightarrow> string \<Rightarrow> string \<Rightarrow> bool
     \<Rightarrow> m_setopt_flag set \<Rightarrow> (int \<times> 'v m_config) option" where
  "parse_into_slot ext config n co name param do_set flags =
     (case (if do_set then co_data co else None) of
        None \<Rightarrow>
          (if fst (m_option_parse ext (co_opt co) name param None) \<ge> 0 \<and> do_set then
             (case handle_on_set config n flags of
                None \<Rightarrow> None
              | Some config1 \<Rightarrow>
                  Some (fst (m_option_parse ext (co_opt co) name param None), config1))
           else Some (fst (m_option_parse ext (co_opt co) name param None), config))
      | Some a \<Rightarrow>
          (if fst (m_option_parse ext (co_opt co) name param (Some (optstruct config a))) \<ge> 0
              \<and> do_set
           then
             (case handle_on_set
                     (config\<lparr>optstruct := (optstruct config)
                        (a := snd (m_option_parse ext (co_opt co) name param
                                     (Some (optstruct config a))))\<rparr>) n flags of
                None \<Rightarrow> None
              | Some config1 \<Rightarrow>
                  Some (fst (m_option_parse ext (co_opt co) name param
                               (Some (optstruct config a))), config1))
           else
             Some (fst (m_option_parse ext (co_opt co) name param (Some (optstruct config a))),
                   config\<lparr>optstruct := (optstruct config)
                     (a := snd (m_option_parse ext (co_opt co) name param
                                  (Some (optstruct config a))))\<rparr>)))"

text \<open>
  The part of \<^verbatim>\<open>m_config_parse_option\<close> after the entry \<open>n\<close> is found: flag gating, the
  built-in options, options with children, and the type's parser. \<open>name\<close> and \<open>param\<close>
  are the name and the parameter as the first part leaves them.
\<close>

definition parse_option_co ::
  "'v setter \<Rightarrow> nat \<Rightarrow> 'v m_externals \<Rightarrow> 'v m_config \<Rightarrow> nat \<Rightarrow> string \<Rightarrow> string
     \<Rightarrow> m_setopt_flag set \<Rightarrow> (int \<times> 'v m_config) option" where
  "parse_option_co parse k ext config n name param flags =
     (case handle_set_opt_flags config n flags of
        None \<Rightarrow> None
      | Some (r, config1) \<Rightarrow>
          if r \<le> 0 then Some (r, config1)
          else
            (case co_at config1 n of
               None \<Rightarrow> None
             | Some co \<Rightarrow>
                 let config2 = (if r = 2
                                then MP_MSG config1 (Verbose_setting name param flags)
                                else config1)
                 in
                 if includefunc ext \<noteq> None \<and> name = ''include'' then
                   parse_include (includefunc ext) config2 param (r = 2) flags
                 else if use_profiles config2 \<and> name = ''profile'' then
                   parse_profile_with parse k ext config2 (co_opt co) name param (r = 2) flags
                 else if use_profiles config2 \<and> name = ''show-profile'' then
                   show_profile k config2 param
                 else if name = ''list-options'' then
                   list_options config2
                 else if M_OPT_TYPE_HAS_CHILD \<in> type_flags (opt_type (co_opt co)) then
                   (if \<not> length (co_name co) < 100 then None
                    else parse_subopts_with parse ext
                      (if subopt_deprecation_warning config2 then config2
                       else (MP_MSG config2 (Warn_subopts_deprecated name))
                              \<lparr>subopt_deprecation_warning := True\<rparr>)
                      (co_name co) (co_name co @ ''-'') param flags)
                 else parse_into_slot ext config2 n co name param (r = 2) flags))"

primrec m_config_parse_option ::
  "nat \<Rightarrow> 'v m_externals \<Rightarrow> 'v m_config \<Rightarrow> string \<Rightarrow> string \<Rightarrow> m_setopt_flag set
     \<Rightarrow> (int \<times> 'v m_config) option" where
  "m_config_parse_option 0 ext config name param flags = None"
| "m_config_parse_option (Suc k) ext config name param flags =
     (case m_config_get_co config name of
        None \<Rightarrow> None
      | Some (co, config1) \<Rightarrow>
          (case co of
             Some n \<Rightarrow>
               parse_option_co (m_config_parse_option k ext) k ext config1 n name param flags
           | None \<Rightarrow>
               (case m_config_find_negation_opt config1 name of
                  None \<Rightarrow> None
                | Some (co1, name1, config2) \<Rightarrow>
                    (case co1 of
                       None \<Rightarrow> Some (M_OPT_UNKNOWN, config2)
                     | Some n \<Rightarrow>
                         if length param \<noteq> 0 then Some (M_OPT_DISALLOW_PARAM, config2)
                         else parse_option_co (m_config_parse_option k ext) k ext config2 n
                                name1 ''no'' flags))))"

definition m_config_set_option_ext ::
  "nat \<Rightarrow> 'v m_externals \<Rightarrow> 'v m_config \<Rightarrow> string \<Rightarrow> string \<Rightarrow> m_setopt_flag set
     \<Rightarrow> (int \<times> 'v m_config) option" where
  "m_config_set_option_ext k ext =
     m_config_set_option_ext_with (m_config_parse_option k ext)"

definition m_config_set_option ::
  "nat \<Rightarrow> 'v m_externals \<Rightarrow> 'v m_config \<Rightarrow> string \<Rightarrow> string \<Rightarrow> (int \<times> 'v m_config) option"
where
  "m_config_set_option k ext config name param =
     m_config_set_option_ext k ext config name param {}"

definition m_config_set_profile ::
  "nat \<Rightarrow> 'v m_externals \<Rightarrow> 'v m_config \<Rightarrow> string \<Rightarrow> m_setopt_flag set
     \<Rightarrow> (int \<times> 'v m_config) option" where
  "m_config_set_profile k ext =
     m_config_set_profile_with (m_config_parse_option k ext) k"

text \<open>
  \<^verbatim>\<open>m_config_set_profile_option\<close>; \<open>p\<close> is the profile. The pair is checked with
  \<^verbatim>\<open>m_config_set_option_ext\<close> and added at the end of the pairs of the profile only when
  the check does not fail.
\<close>

definition m_config_set_profile_option ::
  "nat \<Rightarrow> 'v m_externals \<Rightarrow> 'v m_config \<Rightarrow> nat \<Rightarrow> string \<Rightarrow> string
     \<Rightarrow> (int \<times> 'v m_config) option" where
  "m_config_set_profile_option k ext config p name v =
     (case m_config_set_option_ext k ext config name v
             {M_SETOPT_CHECK_ONLY, M_SETOPT_FROM_CONFIG_FILE} of
        None \<Rightarrow> None
      | Some (i, config1) \<Rightarrow>
          if i < 0 then Some (i, config1)
          else case profile_at config1 p of
            None \<Rightarrow> None
          | Some pr \<Rightarrow>
              Some (1, config1\<lparr>profiles := (profiles config1)
                         [length (profiles config1) - 1 - p :=
                            pr\<lparr>p_opts := p_opts pr @ [(name, v)]\<rparr>]\<rparr>))"

text \<open>
  \<^verbatim>\<open>m_config_set_option_node\<close>. \<open>m_option_set_node opt dst src\<close> is the function of that name
  of \<^verbatim>\<open>options/m_option.c\<close>, which the sources do not contain, with the return code and
  the value it leaves in \<open>dst\<close>; \<open>zero_value\<close> is the value of the zeroed
  \<^verbatim>\<open>union m_option_value\<close> that the node is parsed into. \<open>set_node_co\<close> is the part of the
  function after the entry \<open>n\<close> is found: the value is read from the node, handed to
  \<^verbatim>\<open>m_config_set_option_raw\<close> when reading it did not fail, and the result is reported in
  the verbose message.
\<close>

record 'v m_node_externals =
  m_option_set_node :: "m_option \<Rightarrow> 'v \<Rightarrow> mpv_node \<Rightarrow> int \<times> 'v"
  zero_value :: 'v

definition set_node_co ::
  "'v m_externals \<Rightarrow> 'v m_node_externals \<Rightarrow> 'v m_config \<Rightarrow> nat \<Rightarrow> string \<Rightarrow> mpv_node
     \<Rightarrow> m_setopt_flag set \<Rightarrow> (int \<times> 'v m_config) option" where
  "set_node_co ext node_ext config n name data flags =
     (case co_at config n of
        None \<Rightarrow> None
      | Some co \<Rightarrow>
          (let rv = (case data of
                       MPV_FORMAT_STRING s \<Rightarrow>
                         m_option_parse ext (co_opt co) name s (Some (zero_value node_ext))
                     | _ \<Rightarrow> m_option_set_node node_ext (co_opt co) (zero_value node_ext) data)
           in case (if fst rv \<ge> 0
                    then m_config_set_option_raw config (Some n) (snd rv) flags
                    else Some (fst rv, config)) of
                None \<Rightarrow> None
              | Some (r, config1) \<Rightarrow>
                  Some (r, MP_MSG config1 (Verbose_setting_node name data flags r))))"

definition m_config_set_option_node ::
  "'v m_externals \<Rightarrow> 'v m_node_externals \<Rightarrow> 'v m_config \<Rightarrow> string \<Rightarrow> mpv_node
     \<Rightarrow> m_setopt_flag set \<Rightarrow> (int \<times> 'v m_config) option" where
  "m_config_set_option_node ext node_ext config name data flags =
     (case m_config_get_co config name of
        None \<Rightarrow> None
      | Some (Some n, config1) \<Rightarrow> set_node_co ext node_ext config1 n name data flags
      | Some (None, config1) \<Rightarrow>
          (case m_config_find_negation_opt config1 name of
             None \<Rightarrow> None
           | Some (None, name1, config2) \<Rightarrow> Some (M_OPT_UNKNOWN, config2)
           | Some (Some n, name1, config2) \<Rightarrow>
               if data \<noteq> MPV_FORMAT_STRING [] \<and> data \<noteq> MPV_FORMAT_FLAG 1
               then Some (M_OPT_INVALID, config2)
               else set_node_co ext node_ext
                      (warn_once config2 n (Warn_no_api_deprecated name))
                      n name1 (MPV_FORMAT_STRING ''no'') flags))"

text \<open>\<^verbatim>\<open>m_config_backup_opt\<close> and \<^verbatim>\<open>m_config_backup_all_opts\<close>.\<close>

definition m_config_backup_opt :: "'v m_config \<Rightarrow> string \<Rightarrow> 'v m_config option" where
  "m_config_backup_opt config name =
     (case m_config_get_co config name of
        None \<Rightarrow> None
      | Some (Some n, config1) \<Rightarrow> ensure_backup config1 n
      | Some (None, config1) \<Rightarrow> Some (MP_MSG config1 (Err_option_not_found name)))"

fun backup_all_from :: "'v m_config \<Rightarrow> nat list \<Rightarrow> 'v m_config option" where
  "backup_all_from config [] = Some config"
| "backup_all_from config (n # ns) =
     (case ensure_backup config n of
        None \<Rightarrow> None
      | Some config1 \<Rightarrow> backup_all_from config1 ns)"

definition m_config_backup_all_opts :: "'v m_config \<Rightarrow> 'v m_config option" where
  "m_config_backup_all_opts config = backup_all_from config [0 ..< length (opts config)]"

section \<open>Notions used to state the properties\<close>

subsection \<open>The backup stack\<close>

text \<open>
  \<open>bk_data config bc\<close> is \<^verbatim>\<open>bc->co->data\<close>. The stack is well formed (\<open>backup_ok\<close>) when
  every entry points to an entry of the registry that has storage and no two entries
  have the same \<^verbatim>\<open>data\<close> pointer; the empty stack is. \<open>backup_step\<close> is a step of the
  controller between a backup and the restore: a call of \<^verbatim>\<open>ensure_backup\<close>, or anything
  that leaves the stack and the \<^verbatim>\<open>data\<close> pointers of the registry alone, as every write
  to the live storage does. \<open>backed_up c n a v\<close> says that the stack of \<open>c\<close> is well formed
  and holds the value \<open>v\<close> for the entry \<open>n\<close>, whose storage is \<open>a\<close>.
\<close>

definition bk_data :: "'v m_config \<Rightarrow> 'v m_opt_backup \<Rightarrow> addr option" where
  "bk_data config bc = co_data (opts config ! bk_co bc)"

definition backup_ok :: "'v m_config \<Rightarrow> bool" where
  "backup_ok config \<longleftrightarrow>
     (\<forall>bc \<in> set (backup_opts config).
        bk_co bc < length (opts config) \<and> bk_data config bc \<noteq> None)
     \<and> distinct (map (bk_data config) (backup_opts config))"

definition backup_step :: "'v m_config \<Rightarrow> 'v m_config \<Rightarrow> bool" where
  "backup_step c c' \<longleftrightarrow>
     (\<exists>n. ensure_backup c n = Some c')
     \<or> (backup_opts c' = backup_opts c \<and> map co_data (opts c') = map co_data (opts c))"

definition backed_up :: "'v m_config \<Rightarrow> nat \<Rightarrow> addr \<Rightarrow> 'v \<Rightarrow> bool" where
  "backed_up c n a v \<longleftrightarrow>
     backup_ok c \<and> n < length (opts c) \<and> co_data (opts c ! n) = Some a
     \<and> (\<exists>bc \<in> set (backup_opts c). bk_co bc = n \<and> bk_backup bc = v)"

subsection \<open>Groups\<close>

text \<open>
  The groups are well formed (\<open>groups_wf\<close>) when the parent of every group has a smaller
  index than the group, as \<^verbatim>\<open>m_config_new\<close> and \<^verbatim>\<open>m_config_add_option\<close> build them: the
  root has the parent \<^verbatim>\<open>-1\<close>, and a new group gets the next index and an existing
  group as its parent. \<open>group_chain gs g\<close> is the group \<open>g\<close> followed by its ancestors up
  to the root.
\<close>

definition groups_wf :: "m_config_group list \<Rightarrow> bool" where
  "groups_wf gs \<longleftrightarrow> (\<forall>i < length gs. parent_group (gs ! i) < int i)"

function group_chain :: "m_config_group list \<Rightarrow> int \<Rightarrow> int list" where
  "group_chain gs g =
     (if 0 \<le> g \<and> nat g < length gs then
        (if parent_group (gs ! nat g) < g
         then g # group_chain gs (parent_group (gs ! nat g)) else [g])
      else [])"
  by pat_completeness auto
termination
  by (relation "measure (\<lambda>(gs, g). nat (g + 1))") auto

declare group_chain.simps [simp del]

subsection \<open>The registry during name resolution\<close>

text \<open>
  \<open>same_registry c c'\<close>: \<open>c'\<close> has the entries of \<open>c\<close> with the same names and option
  definitions, and every warning that is marked as printed in \<open>c\<close> is so in \<open>c'\<close>.
\<close>

definition same_registry :: "'v m_config \<Rightarrow> 'v m_config \<Rightarrow> bool" where
  "same_registry c c' \<longleftrightarrow>
     map co_name (opts c') = map co_name (opts c)
     \<and> map co_opt (opts c') = map co_opt (opts c)
     \<and> is_toplevel c' = is_toplevel c
     \<and> (\<forall>i < length (opts c).
           warning_was_printed (opts c ! i) \<longrightarrow> warning_was_printed (opts c' ! i))"

subsection \<open>A profile that includes itself\<close>

text \<open>
  \<open>self_referring ext config pname n\<close>: the profile \<open>pname\<close> of \<open>config\<close> has the one pair
  \<^verbatim>\<open>profile=pname\<close>; profiles are in use; the name \<^verbatim>\<open>profile\<close> resolves to the entry \<open>n\<close>,
  which is not an alias, not removed, not deprecated and allowed in config files; and
  the string list parser reads \<open>pname\<close> as the list with the one element \<open>pname\<close>.
  \<open>committing flags\<close>: the flags hold none of the flags that skip, check only or reject.
\<close>

definition self_referring :: "'v m_externals \<Rightarrow> 'v m_config \<Rightarrow> string \<Rightarrow> nat \<Rightarrow> bool" where
  "self_referring ext config pname n \<longleftrightarrow>
     pname \<noteq> ''help''
     \<and> (\<exists>p pr. m_config_get_profile0 config pname = Some p \<and> profile_at config p = Some pr
           \<and> p_opts pr = [(''profile'', pname)])
     \<and> use_profiles config
     \<and> first_match (opts config) ''profile'' = Some n
     \<and> type_id (opt_type (co_opt (opts config ! n))) \<noteq> m_option_type_alias
     \<and> type_id (opt_type (co_opt (opts config ! n))) \<noteq> m_option_type_removed
     \<and> deprecation_message (co_opt (opts config ! n)) = None
     \<and> M_OPT_NOCFG \<notin> opt_flags (co_opt (opts config ! n))
     \<and> 0 \<le> fst (string_list_parse ext (co_opt (opts config ! n)) ''profile'' pname)
     \<and> snd (string_list_parse ext (co_opt (opts config ! n)) ''profile'' pname) = [pname]"

definition committing :: "m_setopt_flag set \<Rightarrow> bool" where
  "committing flags \<longleftrightarrow> flags \<subseteq> {M_SETOPT_FROM_CONFIG_FILE, M_SETOPT_FROM_CMDLINE}"

section \<open>Example configurations\<close>

text \<open>
  Small configurations on which the theorems below are instantiated. The values of the
  slots are natural numbers.
\<close>

definition flag_type :: m_option_type where
  "flag_type = \<lparr>type_id = CONF_TYPE_FLAG, type_flags = {}\<rparr>"

definition settings_type :: m_option_type where
  "settings_type = \<lparr>type_id = m_option_type_other ''Object settings list'',
                     type_flags = {M_OPT_TYPE_ALLOW_WILDCARD}\<rparr>"

definition mk_opt :: "m_option_type \<Rightarrow> m_option" where
  "mk_opt t = \<lparr>opt_type = t, opt_flags = {}, opt_priv = None, deprecation_message = None\<rparr>"

definition mk_co :: "string \<Rightarrow> m_option \<Rightarrow> addr option \<Rightarrow> int \<Rightarrow> int \<Rightarrow> m_config_option" where
  "mk_co name opt d g off =
     \<lparr>co_name = name, co_opt = opt, co_data = d, co_group = g, shadow_offset = off,
      is_set_from_cmdline = False, is_set_locally = False, warning_was_printed = False,
      is_hidden = False\<rparr>"

definition mk_config :: "m_config_option list \<Rightarrow> nat m_config" where
  "mk_config cos =
     \<lparr>cfg_log = [], opts = cos, groups = [\<lparr>parent_group = - 1, ts = 0\<rparr>], profiles = [],
      profile_depth = 0, backup_opts = [], use_profiles = False, is_toplevel = True,
      recursion_depth = 0, optstruct = (\<lambda>a. 0), shadow = None, has_global = False,
      subopt_deprecation_warning = False, sync = []\<rparr>"

text \<open>
  A registry in the order of mpv's option table for the filter options, with the
  wildcard entry \<^verbatim>\<open>vf*\<close> placed first.
\<close>

definition vf_registry :: "m_config_option list" where
  "vf_registry =
     [mk_co ''vf*'' (mk_opt settings_type) (Some 0) 0 0,
      mk_co ''vf-defaults'' (mk_opt settings_type) (Some 1) 0 8]"


definition flag_parse :: "m_option \<Rightarrow> string \<Rightarrow> string \<Rightarrow> nat option \<Rightarrow> int \<times> nat" where
  "flag_parse opt name param dst =
     (if param = ''yes'' \<or> param = [] then (1, 1)
      else if param = ''no'' then (1, 0)
      else (M_OPT_INVALID, case dst of None \<Rightarrow> 0 | Some v \<Rightarrow> v))"

fun split_commas :: "string \<Rightarrow> string \<Rightarrow> string list" where
  "split_commas acc [] = [rev acc]"
| "split_commas acc (c # cs) =
     (if c = CHR '','' then rev acc # split_commas [] cs else split_commas (c # acc) cs)"

definition example_ext :: "nat m_externals" where
  "example_ext =
     \<lparr>includefunc = None, m_option_parse = flag_parse,
      string_list_parse = (\<lambda>opt name param. (1, if param = [] then [] else split_commas [] param)),
      subconfig_parse = (\<lambda>param. (0, []))\<rparr>"

text \<open>A node handler for flags: a flag node sets the value 0 or 1, any other node fails.\<close>

definition example_node_ext :: "nat m_node_externals" where
  "example_node_ext =
     \<lparr>m_option_set_node =
        (\<lambda>opt dst node. case node of
           MPV_FORMAT_FLAG f \<Rightarrow> (0, if f = 0 then 0 else 1)
         | _ \<Rightarrow> (M_OPT_INVALID, dst)),
      zero_value = 0\<rparr>"

text \<open>An include callback that only reports the file it is given.\<close>

definition include_stub :: "nat includefunc" where
  "include_stub file flags config = Some (MP_MSG config (Verbose_setting ''include'' file flags))"

definition mute_registry :: "m_config_option list" where
  "mute_registry =
     [mk_co ''mute'' (mk_opt flag_type) (Some 0) 0 0,
      mk_co ''include'' (mk_opt \<lparr>type_id = m_option_type_other ''String'', type_flags = {}\<rparr>)
        None 0 (- 1)]"


text \<open>
  Two entries, \<^verbatim>\<open>volume\<close> and \<^verbatim>\<open>vol\<close>, that share one slot; \<open>volume_backed\<close> is the config
  after the backup of \<^verbatim>\<open>volume\<close> and \<open>volume_written\<close> the one after a write of 30 to the
  slot.
\<close>

definition int_type :: m_option_type where
  "int_type = \<lparr>type_id = m_option_type_other ''Integer'', type_flags = {}\<rparr>"

definition volume_registry :: "m_config_option list" where
  "volume_registry =
     [mk_co ''volume'' (mk_opt int_type) (Some 0) 0 0,
      mk_co ''vol'' (mk_opt int_type) (Some 0) 0 8,
      mk_co ''mute'' (mk_opt flag_type) (Some 1) 0 16]"

definition volume_config :: "nat m_config" where
  "volume_config = (mk_config volume_registry)\<lparr>optstruct := (\<lambda>a. 100)\<rparr>"

definition volume_backed :: "nat m_config" where
  "volume_backed =
     volume_config\<lparr>backup_opts := [\<lparr>bk_co = 0, bk_backup = 100\<rparr>],
       opts := [(mk_co ''volume'' (mk_opt int_type) (Some 0) 0 0)\<lparr>is_set_locally := True\<rparr>,
                mk_co ''vol'' (mk_opt int_type) (Some 0) 0 8,
                mk_co ''mute'' (mk_opt flag_type) (Some 1) 0 16]\<rparr>"

definition volume_written :: "nat m_config" where
  "volume_written = volume_backed\<lparr>optstruct := (optstruct volume_backed)(0 := 30)\<rparr>"

text \<open>
  A root with three groups, the groups 1 and 2 below the root, an entry in group 2 and
  a shadow; and a cache for group 2 that has not been refreshed yet.
\<close>

definition group_registry :: "m_config_option list" where
  "group_registry =
     [mk_co ''mute'' (mk_opt flag_type) (Some 0) 0 0,
      mk_co ''demuxer-lavf-hacks'' (mk_opt flag_type) (Some 7) 2 8]"

definition group_config :: "nat m_config" where
  "group_config =
     (mk_config group_registry)
       \<lparr>groups := [\<lparr>parent_group = - 1, ts = 4\<rparr>, \<lparr>parent_group = 0, ts = 1\<rparr>,
                   \<lparr>parent_group = 0, ts = 2\<rparr>],
        optstruct := (\<lambda>a. if a = 7 then 1 else 0),
        shadow := Some (\<lambda>off. 0)\<rparr>"

definition lavf_cache :: "nat m_config_cache" where
  "lavf_cache =
     \<lparr>cache_ts = - 1, cache_group = 2,
      shadow_config =
        (mk_config [mk_co ''demuxer-lavf-hacks'' (mk_opt flag_type) (Some 7) 2 8])
          \<lparr>groups := [\<lparr>parent_group = - 1, ts = 0\<rparr>, \<lparr>parent_group = 0, ts = 0\<rparr>,
                      \<lparr>parent_group = 0, ts = 0\<rparr>]\<rparr>\<rparr>"

text \<open>The profile \<^verbatim>\<open>A\<close> with the one pair \<^verbatim>\<open>profile=A\<close>.\<close>

definition string_list_type :: m_option_type where
  "string_list_type = \<lparr>type_id = m_option_type_other ''String list'', type_flags = {}\<rparr>"

definition loop_config :: "nat m_config" where
  "loop_config =
     (mk_config [mk_co ''profile'' (mk_opt string_list_type) None 0 (- 1)])
       \<lparr>profiles := [\<lparr>p_name = ''A'', p_desc = None, p_opts = [(''profile'', ''A'')]\<rparr>],
        use_profiles := True\<rparr>"

section \<open>Properties\<close>

lemma first_match_bound: "first_match cos name = Some n \<Longrightarrow> n < length cos"
  by (induction cos arbitrary: n) (auto split: if_splits)

subsection \<open>Name resolution\<close>







text \<open>
  C10, as the claim states it, fails: not every call of the setter pipeline with the
  empty name yields \<^verbatim>\<open>M_OPT_UNKNOWN\<close>. \<^verbatim>\<open>m_config_set_option\<close> with the empty name returns
  \<^verbatim>\<open>M_OPT_INVALID\<close>; the unknown-option error is only what it logs.
\<close>

theorem empty_name_counterexample:
  "m_config_set_option 1 example_ext (mk_config vf_registry) [] ''yes''
     = Some (M_OPT_INVALID,
             MP_MSG (mk_config vf_registry) (Err_parsing_option [] M_OPT_UNKNOWN))
   \<and> M_OPT_INVALID \<noteq> M_OPT_UNKNOWN"
  by (simp add: m_config_set_option_def m_config_set_option_ext_def
      m_config_set_option_ext_with_def m_config_get_co.simps m_config_find_negation_opt_def
      bstr_startswith0_def M_OPT_UNKNOWN_def M_OPT_INVALID_def M_OPT_EXIT_def)

text \<open>
  C10, amended: \<^verbatim>\<open>m_config_get_co\<close> returns no entry for the empty name, whatever the
  registry holds, and leaves the config as it is; the negation fallback finds no entry
  for it either. So \<^verbatim>\<open>m_config_parse_option\<close> and \<^verbatim>\<open>m_config_set_option_node\<close> return
  \<^verbatim>\<open>M_OPT_UNKNOWN\<close> for the empty name and change nothing, for every parameter, node and
  flags. \<^verbatim>\<open>m_config_set_option_ext\<close>, \<^verbatim>\<open>m_config_set_option\<close> and
  \<^verbatim>\<open>m_config_set_profile_option\<close> log that error ("Error parsing option") and return
  \<^verbatim>\<open>M_OPT_INVALID\<close>, which is a different code, and the profile gets no pair;
  \<^verbatim>\<open>parse_subopts\<close>, at a pair whose full name is empty, logs the error and returns
  \<^verbatim>\<open>M_OPT_INVALID\<close> as well. Apart from the message no call changes the config.
\<close>

theorem empty_name_result:
  "m_config_get_co config [] = Some (None, config)
   \<and> m_config_find_negation_opt config [] = Some (None, [], config)
   \<and> m_config_parse_option (Suc k) ext config [] param flags = Some (M_OPT_UNKNOWN, config)
   \<and> m_config_set_option_node ext node_ext config [] data flags = Some (M_OPT_UNKNOWN, config)
   \<and> m_config_set_option_ext (Suc k) ext config [] param flags
       = Some (M_OPT_INVALID, MP_MSG config (Err_parsing_option [] M_OPT_UNKNOWN))
   \<and> m_config_set_option (Suc k) ext config [] param
       = Some (M_OPT_INVALID, MP_MSG config (Err_parsing_option [] M_OPT_UNKNOWN))
   \<and> m_config_set_profile_option (Suc k) ext config p [] param
       = Some (M_OPT_INVALID, MP_MSG config (Err_parsing_option [] M_OPT_UNKNOWN))
   \<and> parse_subopts_loop (m_config_parse_option (Suc k) ext) config name []
         (([], param) # rest) r flags
       = Some (M_OPT_INVALID, MP_MSG config (Err_suboption name [] M_OPT_UNKNOWN))
   \<and> M_OPT_INVALID \<noteq> M_OPT_UNKNOWN"
  by (simp add: m_config_get_co.simps m_config_find_negation_opt_def bstr_startswith0_def
      m_config_set_option_node_def m_config_set_option_def m_config_set_option_ext_def
      m_config_set_option_ext_with_def m_config_set_profile_option_def
      M_OPT_UNKNOWN_def M_OPT_INVALID_def M_OPT_EXIT_def)

theorem empty_name_result_witness:
  "m_config_get_co (mk_config vf_registry) [] = Some (None, mk_config vf_registry)
   \<and> m_config_parse_option 1 example_ext (mk_config vf_registry) [] ''yes'' {}
       = Some (M_OPT_UNKNOWN, mk_config vf_registry)
   \<and> m_config_set_option_node example_ext example_node_ext (mk_config vf_registry) []
         (MPV_FORMAT_FLAG 1) {}
       = Some (M_OPT_UNKNOWN, mk_config vf_registry)
   \<and> m_config_set_option_ext 1 example_ext (mk_config vf_registry) [] ''yes'' {}
       = Some (M_OPT_INVALID,
               MP_MSG (mk_config vf_registry) (Err_parsing_option [] M_OPT_UNKNOWN))
   \<and> m_config_set_profile_option 1 example_ext (mk_config vf_registry) 0 [] ''yes''
       = Some (M_OPT_INVALID,
               MP_MSG (mk_config vf_registry) (Err_parsing_option [] M_OPT_UNKNOWN))"
  using empty_name_result [where config = "mk_config vf_registry" and k = 0
      and ext = example_ext and param = "''yes''" and flags = "{}"
      and node_ext = example_node_ext and data = "MPV_FORMAT_FLAG 1" and p = 0]
  by simp

subsection \<open>The raw setter\<close>

lemma handle_set_opt_flags_no_set:
  assumes "co_at config n = Some e"
    and "M_SETOPT_CHECK_ONLY \<in> flags \<or> M_SETOPT_PRESERVE_CMDLINE \<in> flags \<and> is_set_from_cmdline e"
  shows "\<exists>r config1. handle_set_opt_flags config n flags = Some (r, config1) \<and> r \<le> 1
           \<and> optstruct config1 = optstruct config \<and> shadow config1 = shadow config
           \<and> groups config1 = groups config \<and> opts config1 = opts config
           \<and> backup_opts config1 = backup_opts config \<and> sync config1 = sync config
           \<and> (r = 1 \<longrightarrow> config1 = config)"
  using assms
  by (auto simp: handle_set_opt_flags_def Let_def M_OPT_INVALID_def MP_MSG_def)

text \<open>
  C8: \<^verbatim>\<open>m_config_set_option_raw\<close> returns \<^verbatim>\<open>M_OPT_UNKNOWN\<close> for a null entry and for an entry
  without live storage, and the config is unchanged in both cases. When the flags make
  the call check-only (\<^verbatim>\<open>M_SETOPT_CHECK_ONLY\<close>, or \<^verbatim>\<open>M_SETOPT_PRESERVE_CMDLINE\<close> on an entry
  set from the command line), it returns the result of \<^verbatim>\<open>handle_set_opt_flags\<close>, which is
  at most 1, and nothing is copied: the live storage, the shadow, the counters, the
  entries and the backup stack are as before, and with result 1 the whole config is.
\<close>

theorem set_option_raw_unknown:
  "m_config_set_option_raw config None v flags = Some (M_OPT_UNKNOWN, config)
   \<and> (co_at config n = Some e \<and> co_data e = None
        \<longrightarrow> m_config_set_option_raw config (Some n) v flags = Some (M_OPT_UNKNOWN, config))
   \<and> (co_at config n = Some e \<and> co_data e = Some a
        \<and> (M_SETOPT_CHECK_ONLY \<in> flags
            \<or> M_SETOPT_PRESERVE_CMDLINE \<in> flags \<and> is_set_from_cmdline e)
        \<longrightarrow> (\<exists>r config1.
               m_config_set_option_raw config (Some n) v flags = Some (r, config1)
               \<and> handle_set_opt_flags config n flags = Some (r, config1) \<and> r \<le> 1
               \<and> optstruct config1 = optstruct config \<and> shadow config1 = shadow config
               \<and> groups config1 = groups config \<and> opts config1 = opts config
               \<and> backup_opts config1 = backup_opts config \<and> sync config1 = sync config
               \<and> (r = 1 \<longrightarrow> config1 = config)))"
proof (intro conjI impI)
  show "m_config_set_option_raw config None v flags = Some (M_OPT_UNKNOWN, config)"
    by (simp add: m_config_set_option_raw_def)
next
  assume "co_at config n = Some e \<and> co_data e = None"
  then show "m_config_set_option_raw config (Some n) v flags = Some (M_OPT_UNKNOWN, config)"
    by (simp add: m_config_set_option_raw_def)
next
  assume a: "co_at config n = Some e \<and> co_data e = Some a
    \<and> (M_SETOPT_CHECK_ONLY \<in> flags \<or> M_SETOPT_PRESERVE_CMDLINE \<in> flags \<and> is_set_from_cmdline e)"
  then obtain r config1 where h: "handle_set_opt_flags config n flags = Some (r, config1)"
    "r \<le> 1" "optstruct config1 = optstruct config" "shadow config1 = shadow config"
    "groups config1 = groups config" "opts config1 = opts config"
    "backup_opts config1 = backup_opts config" "sync config1 = sync config"
    "r = 1 \<longrightarrow> config1 = config"
    using handle_set_opt_flags_no_set [of config n e flags] by blast
  from a h(1,2) have "m_config_set_option_raw config (Some n) v flags = Some (r, config1)"
    by (simp add: m_config_set_option_raw_def)
  with h show "\<exists>r config1.
      m_config_set_option_raw config (Some n) v flags = Some (r, config1)
      \<and> handle_set_opt_flags config n flags = Some (r, config1) \<and> r \<le> 1
      \<and> optstruct config1 = optstruct config \<and> shadow config1 = shadow config
      \<and> groups config1 = groups config \<and> opts config1 = opts config
      \<and> backup_opts config1 = backup_opts config \<and> sync config1 = sync config
      \<and> (r = 1 \<longrightarrow> config1 = config)"
    by blast
qed

theorem set_option_raw_unknown_witness:
  "m_config_set_option_raw (mk_config mute_registry) None 1 {}
     = Some (M_OPT_UNKNOWN, mk_config mute_registry)
   \<and> co_data (mute_registry ! 1) = None
   \<and> m_config_set_option_raw (mk_config mute_registry) (Some 1) 1 {}
       = Some (M_OPT_UNKNOWN, mk_config mute_registry)
   \<and> co_data (mute_registry ! 0) = Some 0
   \<and> m_config_set_option_raw (mk_config mute_registry) (Some 0) 1 {M_SETOPT_CHECK_ONLY}
       = Some (1, mk_config mute_registry)"
  using set_option_raw_unknown [of "mk_config mute_registry" 1 "{}" 1 "mute_registry ! 1" 0]
    set_option_raw_unknown [of "mk_config mute_registry" 1 "{M_SETOPT_CHECK_ONLY}" 0
      "mute_registry ! 0" 0]
  by (auto simp: mk_config_def mute_registry_def mk_co_def mk_opt_def flag_type_def co_at_def
      handle_set_opt_flags_def Let_def)

subsection \<open>Profiles\<close>

lemma get_profile_from_Some:
  "get_profile_from ps nm = Some p \<Longrightarrow> p < length ps \<and> p_name (rev ps ! p) = nm"
proof (induction ps)
  case Nil
  then show ?case by simp
next
  case (Cons q ps)
  then show ?case
    by (auto simp: nth_append split: if_splits)
qed

lemma get_profile_from_None:
  "get_profile_from ps nm = None \<longleftrightarrow> nm \<notin> p_name ` set ps"
  by (induction ps) auto

text \<open>
  C9: \<^verbatim>\<open>m_config_add_profile\<close> returns no profile and changes nothing for a null name, the
  empty name and the name \<^verbatim>\<open>default\<close>. For another name it returns the profile of that
  name if there is one, with the config unchanged; otherwise it links a new profile
  with that name, no description and no pairs in at the head and returns it, and the
  profiles that existed stay where they were. Hence names that are pairwise distinct
  stay so, and a store without the names \<^verbatim>\<open>""\<close> and \<^verbatim>\<open>default\<close> never gets one.
\<close>

theorem add_profile_unique:
  "m_config_add_profile config None = (None, config)
   \<and> m_config_add_profile config (Some []) = (None, config)
   \<and> m_config_add_profile config (Some ''default'') = (None, config)
   \<and> (nm \<noteq> [] \<and> nm \<noteq> ''default'' \<and> m_config_get_profile0 config nm = Some p
        \<longrightarrow> m_config_add_profile config (Some nm) = (Some p, config)
            \<and> map_option p_name (profile_at config p) = Some nm)
   \<and> (nm \<noteq> [] \<and> nm \<noteq> ''default'' \<and> m_config_get_profile0 config nm = None
        \<longrightarrow> m_config_add_profile config (Some nm)
              = (Some (length (profiles config)),
                 config\<lparr>profiles := \<lparr>p_name = nm, p_desc = None, p_opts = []\<rparr> # profiles config\<rparr>)
            \<and> profile_at (snd (m_config_add_profile config (Some nm))) (length (profiles config))
                = Some \<lparr>p_name = nm, p_desc = None, p_opts = []\<rparr>
            \<and> (\<forall>q < length (profiles config).
                  profile_at (snd (m_config_add_profile config (Some nm))) q = profile_at config q)
            \<and> nm \<notin> p_name ` set (profiles config))
   \<and> (distinct (map p_name (profiles config))
        \<longrightarrow> distinct (map p_name (profiles (snd (m_config_add_profile config name)))))
   \<and> ([] \<notin> p_name ` set (profiles config) \<and> ''default'' \<notin> p_name ` set (profiles config)
        \<longrightarrow> [] \<notin> p_name ` set (profiles (snd (m_config_add_profile config name)))
            \<and> ''default'' \<notin> p_name ` set (profiles (snd (m_config_add_profile config name))))"
proof (intro conjI impI)
  show "m_config_add_profile config None = (None, config)"
    and "m_config_add_profile config (Some []) = (None, config)"
    and "m_config_add_profile config (Some ''default'') = (None, config)"
    by (simp_all add: m_config_add_profile_def)
next
  assume a: "nm \<noteq> [] \<and> nm \<noteq> ''default'' \<and> m_config_get_profile0 config nm = Some p"
  then show "m_config_add_profile config (Some nm) = (Some p, config)"
    by (simp add: m_config_add_profile_def)
  from a show "map_option p_name (profile_at config p) = Some nm"
    using get_profile_from_Some [of "profiles config" nm p]
    by (simp add: m_config_get_profile0_def m_config_get_profile_def profile_at_def)
next
  assume a: "nm \<noteq> [] \<and> nm \<noteq> ''default'' \<and> m_config_get_profile0 config nm = None"
  then show e: "m_config_add_profile config (Some nm)
      = (Some (length (profiles config)),
         config\<lparr>profiles := \<lparr>p_name = nm, p_desc = None, p_opts = []\<rparr> # profiles config\<rparr>)"
    by (simp add: m_config_add_profile_def)
  show "profile_at (snd (m_config_add_profile config (Some nm))) (length (profiles config))
      = Some \<lparr>p_name = nm, p_desc = None, p_opts = []\<rparr>"
    by (simp add: e profile_at_def nth_append)
  show "\<forall>q < length (profiles config).
      profile_at (snd (m_config_add_profile config (Some nm))) q = profile_at config q"
    by (simp add: e profile_at_def nth_append)
  from a show "nm \<notin> p_name ` set (profiles config)"
    by (simp add: m_config_get_profile0_def m_config_get_profile_def get_profile_from_None)
next
  assume "distinct (map p_name (profiles config))"
  then show "distinct (map p_name (profiles (snd (m_config_add_profile config name))))"
    by (auto simp: m_config_add_profile_def m_config_get_profile0_def m_config_get_profile_def
        get_profile_from_None split: option.splits)
next
  assume a: "[] \<notin> p_name ` set (profiles config) \<and> ''default'' \<notin> p_name ` set (profiles config)"
  then show "[] \<notin> p_name ` set (profiles (snd (m_config_add_profile config name)))"
    by (auto simp: m_config_add_profile_def split: option.splits)
  from a show "''default'' \<notin> p_name ` set (profiles (snd (m_config_add_profile config name)))"
    by (auto simp: m_config_add_profile_def split: option.splits)
qed

theorem add_profile_unique_witness:
  "m_config_add_profile (mk_config []) (Some ''quiet'')
     = (Some 0, (mk_config [])\<lparr>profiles := [\<lparr>p_name = ''quiet'', p_desc = None, p_opts = []\<rparr>]\<rparr>)
   \<and> m_config_add_profile (snd (m_config_add_profile (mk_config []) (Some ''quiet'')))
       (Some ''quiet'')
     = (Some 0, snd (m_config_add_profile (mk_config []) (Some ''quiet'')))
   \<and> distinct (map p_name (profiles (snd (m_config_add_profile
        (snd (m_config_add_profile (mk_config []) (Some ''quiet''))) (Some ''loud'')))))"
  using add_profile_unique [of "mk_config []" "''quiet''" 0 "Some ''quiet''"]
    add_profile_unique [of "snd (m_config_add_profile (mk_config []) (Some ''quiet''))"
      "''quiet''" 0 "Some ''loud''"]
  by (simp add: mk_config_def m_config_add_profile_def m_config_get_profile0_def
      m_config_get_profile_def)

subsection \<open>The include meta-option\<close>

text \<open>
  C6, as the claim states it, fails: \<^verbatim>\<open>parse_include\<close> leaves with 1 in check-only mode
  before it looks at the depth counter. With the counter at 8, a file name and a call
  that only checks, the result is 1 and not \<^verbatim>\<open>M_OPT_INVALID\<close>.
\<close>

theorem parse_include_depth_counterexample:
  "recursion_depth ((mk_config [])\<lparr>recursion_depth := 8\<rparr>) = MAX_RECURSION_DEPTH
   \<and> parse_include (Some include_stub) ((mk_config [])\<lparr>recursion_depth := 8\<rparr>) ''a.conf'' False {}
       = Some (1, (mk_config [])\<lparr>recursion_depth := 8\<rparr>)
   \<and> M_OPT_INVALID \<noteq> 1"
  by (simp add: parse_include_def mk_config_def MAX_RECURSION_DEPTH_def M_OPT_INVALID_def)

text \<open>
  C6, amended: \<^verbatim>\<open>parse_include\<close> returns \<^verbatim>\<open>M_OPT_MISSING_PARAM\<close> for an empty parameter. For
  a parameter that is not empty, a call that only checks returns 1 without looking at
  the depth counter and without calling the callback. A call that sets returns
  \<^verbatim>\<open>M_OPT_INVALID\<close> when the counter has reached 8, after the error message and without
  calling the callback; otherwise it calls the callback with the file name and the
  flags on the config with the counter incremented, which is then at most 8, takes 1
  from the counter afterwards and returns 1, so that the counter is as before when the
  callback leaves it as it found it.
\<close>

theorem parse_include_cases:
  "(param = [] \<longrightarrow> parse_include incl config param do_set flags
       = Some (M_OPT_MISSING_PARAM, config))
   \<and> (param \<noteq> [] \<and> \<not> do_set \<longrightarrow> parse_include incl config param do_set flags = Some (1, config))
   \<and> (param \<noteq> [] \<and> do_set \<and> recursion_depth config \<ge> MAX_RECURSION_DEPTH
        \<longrightarrow> parse_include incl config param do_set flags
              = Some (M_OPT_INVALID, MP_MSG config Err_include_depth))
   \<and> (param \<noteq> [] \<and> do_set \<and> recursion_depth config < MAX_RECURSION_DEPTH
        \<and> f param flags (config\<lparr>recursion_depth := recursion_depth config + 1\<rparr>) = Some config1
        \<longrightarrow> parse_include (Some f) config param do_set flags
              = Some (1, config1\<lparr>recursion_depth := recursion_depth config1 - 1\<rparr>)
            \<and> recursion_depth (config\<lparr>recursion_depth := recursion_depth config + 1\<rparr>)
                \<le> MAX_RECURSION_DEPTH
            \<and> (recursion_depth config1 = recursion_depth config + 1
                 \<longrightarrow> recursion_depth (config1\<lparr>recursion_depth := recursion_depth config1 - 1\<rparr>)
                       = recursion_depth config))"
  by (auto simp: parse_include_def)

theorem parse_include_cases_witness:
  "parse_include (Some include_stub) (mk_config []) [] True {}
     = Some (M_OPT_MISSING_PARAM, mk_config [])
   \<and> parse_include (Some include_stub) ((mk_config [])\<lparr>recursion_depth := 8\<rparr>) ''a.conf'' True {}
       = Some (M_OPT_INVALID, MP_MSG ((mk_config [])\<lparr>recursion_depth := 8\<rparr>) Err_include_depth)
   \<and> parse_include (Some include_stub) ((mk_config [])\<lparr>recursion_depth := 7\<rparr>) ''a.conf'' True {}
       = Some (1, MP_MSG ((mk_config [])\<lparr>recursion_depth := 7\<rparr>)
                    (Verbose_setting ''include'' ''a.conf'' {}))"
  using parse_include_cases [of "[]" "Some include_stub" "mk_config []" True "{}"]
    parse_include_cases [of "''a.conf''" "Some include_stub"
      "(mk_config [])\<lparr>recursion_depth := 8\<rparr>" True "{}"]
    parse_include_cases [of "''a.conf''" "Some include_stub"
      "(mk_config [])\<lparr>recursion_depth := 7\<rparr>" True "{}" include_stub
      "MP_MSG ((mk_config [])\<lparr>recursion_depth := 8\<rparr>) (Verbose_setting ''include'' ''a.conf'' {})"]
  by (simp add: mk_config_def MAX_RECURSION_DEPTH_def include_stub_def MP_MSG_def)


subsection \<open>Backup and restore\<close>

lemma backup_has_data_ok:
  "\<forall>bc \<in> set bs. bk_co bc < length cos \<Longrightarrow>
     backup_has_data cos bs d = Some (d \<in> (\<lambda>bc. co_data (cos ! bk_co bc)) ` set bs)"
  by (induction bs) auto

lemma map_co_data_update:
  "co_data (f (cos ! n)) = co_data (cos ! n) \<Longrightarrow> map co_data (cos[n := f (cos ! n)]) = map co_data cos"
  by (cases "n < length cos") (simp_all add: map_update list_update_same_conv list_update_beyond)

lemma co_data_nth_eq:
  "map co_data cos' = map co_data cos \<Longrightarrow> i < length cos \<Longrightarrow> co_data (cos' ! i) = co_data (cos ! i)"
  by (metis length_map nth_map)

lemma ensure_backup_push:
  assumes "backup_ok c" "co_at c n = Some co"
    and "M_OPT_TYPE_HAS_CHILD \<notin> type_flags (opt_type (co_opt co))"
    and "M_OPT_GLOBAL \<notin> opt_flags (co_opt co)"
    and "co_data co = Some a" "Some a \<notin> bk_data c ` set (backup_opts c)"
  shows "ensure_backup c n =
    Some (co_update (c\<lparr>backup_opts := \<lparr>bk_co = n, bk_backup = optstruct c a\<rparr> # backup_opts c\<rparr>)
           n (\<lambda>co. co\<lparr>is_set_locally := True\<rparr>))"
proof -
  have "backup_has_data (opts c) (backup_opts c) (Some a) = Some False"
    using assms(1,6) backup_has_data_ok [of "backup_opts c" "opts c" "Some a"]
    by (auto simp: backup_ok_def bk_data_def image_iff)
  with assms show ?thesis
    by (simp add: ensure_backup_def m_option_copy_def)
qed

lemma ensure_backup_refuse_alias:
  assumes "backup_ok c" "co_at c n = Some co" "co_data co \<in> bk_data c ` set (backup_opts c)"
  shows "ensure_backup c n = Some c"
proof -
  have "backup_has_data (opts c) (backup_opts c) (co_data co) = Some True"
    using assms(1,3) backup_has_data_ok [of "backup_opts c" "opts c" "co_data co"]
    by (auto simp: backup_ok_def bk_data_def image_iff)
  with assms show ?thesis
    by (auto simp: ensure_backup_def split: option.splits)
qed

lemma ensure_backup_result:
  assumes "backup_ok c" "ensure_backup c n = Some c'"
  shows "c' = c \<or> (\<exists>co a. co_at c n = Some co \<and> co_data co = Some a
            \<and> Some a \<notin> bk_data c ` set (backup_opts c)
            \<and> c' = co_update (c\<lparr>backup_opts := \<lparr>bk_co = n, bk_backup = optstruct c a\<rparr> # backup_opts c\<rparr>)
                     n (\<lambda>co. co\<lparr>is_set_locally := True\<rparr>))"
proof -
  from assms(2) obtain co where co: "co_at c n = Some co"
    by (cases "co_at c n") (simp_all add: ensure_backup_def)
  show ?thesis
  proof (cases "M_OPT_TYPE_HAS_CHILD \<in> type_flags (opt_type (co_opt co))
               \<or> M_OPT_GLOBAL \<in> opt_flags (co_opt co) \<or> co_data co = None")
    case True
    with assms(2) co have "c' = c"
      by (auto simp: ensure_backup_def split: if_splits)
    then show ?thesis ..
  next
    case False
    then obtain a where a: "co_data co = Some a" by auto
    show ?thesis
    proof (cases "Some a \<in> bk_data c ` set (backup_opts c)")
      case True
      with ensure_backup_refuse_alias [OF assms(1) co] a assms(2) show ?thesis by simp
    next
      case notin: False
      from False have "M_OPT_TYPE_HAS_CHILD \<notin> type_flags (opt_type (co_opt co))"
        and "M_OPT_GLOBAL \<notin> opt_flags (co_opt co)" by simp_all
      from ensure_backup_push [OF assms(1) co this a notin] assms(2) co a notin
      show ?thesis by auto
    qed
  qed
qed

lemma ensure_backup_keeps:
  assumes "backup_ok c" "ensure_backup c n = Some c'"
  shows "backup_ok c' \<and> map co_data (opts c') = map co_data (opts c)
         \<and> (\<exists>new. backup_opts c' = new @ backup_opts c) \<and> optstruct c' = optstruct c"
proof -
  from ensure_backup_result [OF assms]
  consider "c' = c"
    | co a where "co_at c n = Some co" "co_data co = Some a"
        "Some a \<notin> bk_data c ` set (backup_opts c)"
        "c' = co_update (c\<lparr>backup_opts := \<lparr>bk_co = n, bk_backup = optstruct c a\<rparr> # backup_opts c\<rparr>)
                     n (\<lambda>co. co\<lparr>is_set_locally := True\<rparr>)"
    by blast
  then show ?thesis
  proof cases
    case 1
    with assms show ?thesis by simp
  next
    case 2
    have n: "n < length (opts c)" "opts c ! n = co"
      using 2(1) by (auto simp: co_at_def split: if_splits)
    have m: "map co_data (opts c') = map co_data (opts c)"
      using 2(4) by (simp add: co_update_def map_co_data_update)
    have l: "length (opts c') = length (opts c)"
      using m by (metis length_map)
    have d: "\<And>bc. bk_co bc < length (opts c) \<Longrightarrow> bk_data c' bc = bk_data c bc"
      using co_data_nth_eq [OF m] by (simp add: bk_data_def)
    have b: "backup_opts c' = \<lparr>bk_co = n, bk_backup = optstruct c a\<rparr> # backup_opts c"
      using 2(4) by (simp add: co_update_def)
    have dn: "bk_data c \<lparr>bk_co = n, bk_backup = optstruct c a\<rparr> = Some a"
      using n 2(2) by (simp add: bk_data_def)
    have e: "map (bk_data c') (backup_opts c) = map (bk_data c) (backup_opts c)"
      using assms(1) d by (auto simp: backup_ok_def)
    have dist: "distinct (map (bk_data c') (backup_opts c))"
      unfolding e using assms(1) by (simp add: backup_ok_def)
    have nin: "Some a \<notin> set (map (bk_data c') (backup_opts c))"
      unfolding e using 2(3) by simp
    have "backup_ok c'"
      using assms(1) n l d dn dist nin
      by (auto simp: backup_ok_def b)
    moreover have "optstruct c' = optstruct c"
      using 2(4) by (simp add: co_update_def)
    ultimately show ?thesis using m b by simp
  qed
qed

lemma restore_backups_ok:
  "backup_ok c \<Longrightarrow>
     \<exists>c'. m_config_restore_backups c = Some c' \<and> backup_opts c' = []
       \<and> map co_data (opts c') = map co_data (opts c)
       \<and> (\<forall>bc \<in> set (backup_opts c). \<forall>a. bk_data c bc = Some a \<longrightarrow> optstruct c' a = bk_backup bc)
       \<and> (\<forall>bc \<in> set (backup_opts c). \<not> is_set_locally (opts c' ! bk_co bc))
       \<and> (\<forall>i < length (opts c). is_set_locally (opts c' ! i) \<longrightarrow> is_set_locally (opts c ! i))
       \<and> (\<forall>a. Some a \<notin> bk_data c ` set (backup_opts c) \<longrightarrow> optstruct c' a = optstruct c a)"
proof (induction "backup_opts c" arbitrary: c)
  case Nil
  then show ?case
    by (simp add: m_config_restore_backups.simps [of c])
next
  case (Cons bc rest)
  have stack: "backup_opts c = bc # rest" using Cons.hyps(2) by simp
  have valid: "bk_co bc < length (opts c)" and "bk_data c bc \<noteq> None"
    using Cons.prems stack by (auto simp: backup_ok_def)
  then obtain a where a: "co_data (opts c ! bk_co bc) = Some a"
    by (auto simp: bk_data_def)
  define c1 where "c1 = co_update
     (c\<lparr>backup_opts := rest, optstruct := (optstruct c)(a := bk_backup bc)\<rparr>)
     (bk_co bc) (\<lambda>co. co\<lparr>is_set_locally := False\<rparr>)"
  have step: "m_config_restore_backups c = m_config_restore_backups c1"
    using stack valid a
    by (simp add: m_config_restore_backups.simps [of c] co_at_def c1_def m_option_copy_def)
  have m1: "map co_data (opts c1) = map co_data (opts c)"
    by (simp add: c1_def co_update_def map_co_data_update)
  have l1: "length (opts c1) = length (opts c)"
    using m1 by (metis length_map)
  have d1: "\<And>b. bk_co b < length (opts c) \<Longrightarrow> bk_data c1 b = bk_data c b"
    using co_data_nth_eq [OF m1] by (simp add: bk_data_def)
  have r1: "rest = backup_opts c1" by (simp add: c1_def co_update_def)
  have e1: "map (bk_data c1) rest = map (bk_data c) rest"
    using Cons.prems stack d1 by (auto simp: backup_ok_def)
  have dist1: "distinct (map (bk_data c1) rest)"
    unfolding e1 using Cons.prems stack by (simp add: backup_ok_def)
  have ok1: "backup_ok c1"
    using Cons.prems stack l1 d1 dist1 r1 [symmetric]
    by (auto simp: backup_ok_def)
  from Cons.hyps(1) [OF r1 ok1] obtain c' where c':
    "m_config_restore_backups c1 = Some c'" "backup_opts c' = []"
    "map co_data (opts c') = map co_data (opts c1)"
    "\<forall>b \<in> set (backup_opts c1). \<forall>a. bk_data c1 b = Some a \<longrightarrow> optstruct c' a = bk_backup b"
    "\<forall>b \<in> set (backup_opts c1). \<not> is_set_locally (opts c' ! bk_co b)"
    "\<forall>i < length (opts c1). is_set_locally (opts c' ! i) \<longrightarrow> is_set_locally (opts c1 ! i)"
    "\<forall>a. Some a \<notin> bk_data c1 ` set (backup_opts c1) \<longrightarrow> optstruct c' a = optstruct c1 a"
    by blast
  have notin: "Some a \<notin> bk_data c1 ` set (backup_opts c1)"
  proof -
    have "bk_data c bc = Some a" using a by (simp add: bk_data_def)
    moreover have "bk_data c bc \<notin> set (map (bk_data c) rest)"
      using Cons.prems stack by (simp add: backup_ok_def)
    ultimately show ?thesis
      using e1 r1 by (metis set_map)
  qed
  have o1: "optstruct c1 a = bk_backup bc"
    by (simp add: c1_def co_update_def)
  have f1: "\<not> is_set_locally (opts c1 ! bk_co bc)"
    using valid by (simp add: c1_def co_update_def)
  have g1: "\<forall>i < length (opts c). is_set_locally (opts c1 ! i) \<longrightarrow> is_set_locally (opts c ! i)"
    using valid by (auto simp: c1_def co_update_def nth_list_update split: if_splits)
  have "\<forall>b \<in> set (backup_opts c). \<forall>a'. bk_data c b = Some a' \<longrightarrow> optstruct c' a' = bk_backup b"
  proof (intro ballI allI impI)
    fix b a' assume b: "b \<in> set (backup_opts c)" and ba: "bk_data c b = Some a'"
    show "optstruct c' a' = bk_backup b"
    proof (cases "b = bc")
      case True
      with ba a have "a' = a" by (simp add: bk_data_def)
      with c'(7) notin o1 True show ?thesis by simp
    next
      case False
      with b stack r1 have br: "b \<in> set (backup_opts c1)" by simp
      have "bk_co b < length (opts c)"
        using Cons.prems b by (simp add: backup_ok_def)
      with ba d1 have "bk_data c1 b = Some a'" by simp
      with c'(4) br show ?thesis by blast
    qed
  qed
  moreover have "\<forall>b \<in> set (backup_opts c). \<not> is_set_locally (opts c' ! bk_co b)"
  proof
    fix b assume b: "b \<in> set (backup_opts c)"
    show "\<not> is_set_locally (opts c' ! bk_co b)"
    proof (cases "b = bc")
      case True
      with c'(6) f1 valid l1 show ?thesis by auto
    next
      case False
      with b stack r1 have "b \<in> set (backup_opts c1)" by simp
      with c'(5) show ?thesis by blast
    qed
  qed
  moreover have "\<forall>i < length (opts c). is_set_locally (opts c' ! i) \<longrightarrow> is_set_locally (opts c ! i)"
    using c'(6) g1 l1 by auto
  moreover have "\<forall>a'. Some a' \<notin> bk_data c ` set (backup_opts c) \<longrightarrow> optstruct c' a' = optstruct c a'"
  proof (intro allI impI)
    fix a' assume n: "Some a' \<notin> bk_data c ` set (backup_opts c)"
    have "a' \<noteq> a" using n a stack by (auto simp: bk_data_def image_iff)
    moreover have "bk_data c1 ` set rest = bk_data c ` set rest"
      using arg_cong [OF e1, of set] by simp
    then have "Some a' \<notin> bk_data c1 ` set (backup_opts c1)"
      using n stack r1 [symmetric] by auto
    ultimately show "optstruct c' a' = optstruct c a'"
      using c'(7) by (simp add: c1_def co_update_def)
  qed
  ultimately show ?case
    using step c'(1,2,3) m1 by simp
qed

lemma backed_up_step:
  assumes "backup_step c c'" "backed_up c n a v"
  shows "backed_up c' n a v"
proof -
  from assms(1) consider m where "ensure_backup c m = Some c'"
    | "backup_opts c' = backup_opts c" "map co_data (opts c') = map co_data (opts c)"
    by (auto simp: backup_step_def)
  then show ?thesis
  proof cases
    case 1
    from assms(2) have ok: "backup_ok c" by (simp add: backed_up_def)
    from ensure_backup_keeps [OF ok 1] obtain new where k: "backup_ok c'"
      "map co_data (opts c') = map co_data (opts c)" "backup_opts c' = new @ backup_opts c"
      by blast
    have "length (opts c') = length (opts c)" using k(2) by (metis length_map)
    with assms(2) k co_data_nth_eq [OF k(2), of n] show ?thesis
      by (auto simp: backed_up_def)
  next
    case 2
    have l: "length (opts c') = length (opts c)" using 2(2) by (metis length_map)
    have d: "\<And>b. bk_co b < length (opts c) \<Longrightarrow> bk_data c' b = bk_data c b"
      using co_data_nth_eq [OF 2(2)] by (simp add: bk_data_def)
    have e: "map (bk_data c') (backup_opts c) = map (bk_data c) (backup_opts c)"
      using assms(2) d by (auto simp: backed_up_def backup_ok_def)
    have dist: "distinct (map (bk_data c') (backup_opts c))"
      unfolding e using assms(2) by (simp add: backed_up_def backup_ok_def)
    have "backup_ok c'"
      using assms(2) l d dist by (auto simp: backed_up_def backup_ok_def 2(1))
    with assms(2) l co_data_nth_eq [OF 2(2), of n] 2(1) show ?thesis
      by (auto simp: backed_up_def)
  qed
qed

lemma backed_up_steps:
  "backup_step\<^sup>*\<^sup>* c c' \<Longrightarrow> backed_up c n a v \<Longrightarrow> backed_up c' n a v"
  by (induction rule: rtranclp_induct) (auto intro: backed_up_step)

lemma backed_up_restore:
  assumes "backed_up c n a v"
  shows "\<exists>c'. m_config_restore_backups c = Some c' \<and> optstruct c' a = v
           \<and> \<not> is_set_locally (opts c' ! n) \<and> backup_opts c' = []"
proof -
  from assms obtain bc where bc: "bc \<in> set (backup_opts c)" "bk_co bc = n" "bk_backup bc = v"
    and ok: "backup_ok c" and a: "co_data (opts c ! n) = Some a"
    by (auto simp: backed_up_def)
  from restore_backups_ok [OF ok] obtain c' where c':
    "m_config_restore_backups c = Some c'" "backup_opts c' = []"
    "\<forall>bc \<in> set (backup_opts c). \<forall>a. bk_data c bc = Some a \<longrightarrow> optstruct c' a = bk_backup bc"
    "\<forall>bc \<in> set (backup_opts c). \<not> is_set_locally (opts c' ! bk_co bc)"
    by blast
  have "bk_data c bc = Some a" using bc(2) a by (simp add: bk_data_def)
  with c'(3) bc have "optstruct c' a = v" by blast
  moreover from c'(4) bc have "\<not> is_set_locally (opts c' ! n)" by blast
  ultimately show ?thesis using c'(1,2) by blast
qed

text \<open>
  C4: \<^verbatim>\<open>ensure_backup\<close> changes nothing for an entry whose type has children, for a
  global option and for an entry without storage, and nothing when the stack already
  holds an entry with the same \<^verbatim>\<open>data\<close> pointer; it keeps the stack well formed, so no
  slot is on the stack twice. When the first \<^verbatim>\<open>ensure_backup\<close> for a slot \<open>a\<close> is made
  through the entry \<open>n\<close> in the config \<open>config\<close>, it marks the entry as set locally, and
  after any number of further backups and writes \<^verbatim>\<open>m_config_restore_backups\<close> returns
  with the value of \<open>a\<close> that \<open>config\<close> had, the mark of \<open>n\<close> cleared and the stack empty.
\<close>

theorem backup_restore:
  "(co_at config n = Some co
      \<and> (M_OPT_TYPE_HAS_CHILD \<in> type_flags (opt_type (co_opt co))
          \<or> M_OPT_GLOBAL \<in> opt_flags (co_opt co) \<or> co_data co = None)
      \<longrightarrow> ensure_backup config n = Some config)
   \<and> (backup_ok config \<and> co_at config n = Some co
        \<and> co_data co \<in> bk_data config ` set (backup_opts config)
      \<longrightarrow> ensure_backup config n = Some config)
   \<and> (backup_opts config = [] \<longrightarrow> backup_ok config)
   \<and> (backup_ok config \<and> ensure_backup config n = Some config1 \<longrightarrow> backup_ok config1)
   \<and> (backup_ok config \<and> co_at config n = Some co
        \<and> M_OPT_TYPE_HAS_CHILD \<notin> type_flags (opt_type (co_opt co))
        \<and> M_OPT_GLOBAL \<notin> opt_flags (co_opt co)
        \<and> co_data co = Some a \<and> Some a \<notin> bk_data config ` set (backup_opts config)
        \<and> ensure_backup config n = Some config1 \<and> backup_step\<^sup>*\<^sup>* config1 config2
      \<longrightarrow> is_set_locally (opts config1 ! n)
          \<and> (\<exists>config3. m_config_restore_backups config2 = Some config3
                \<and> optstruct config3 a = optstruct config a
                \<and> \<not> is_set_locally (opts config3 ! n) \<and> backup_opts config3 = []))"
proof (intro conjI impI)
  assume h: "co_at config n = Some co
      \<and> (M_OPT_TYPE_HAS_CHILD \<in> type_flags (opt_type (co_opt co))
          \<or> M_OPT_GLOBAL \<in> opt_flags (co_opt co) \<or> co_data co = None)"
  then have co: "co_at config n = Some co" by blast
  from h consider "M_OPT_TYPE_HAS_CHILD \<in> type_flags (opt_type (co_opt co))"
    | "M_OPT_GLOBAL \<in> opt_flags (co_opt co)" | "co_data co = None"
    by auto
  then show "ensure_backup config n = Some config"
    by cases (simp_all add: ensure_backup_def co)
next
  assume "backup_ok config \<and> co_at config n = Some co
        \<and> co_data co \<in> bk_data config ` set (backup_opts config)"
  then show "ensure_backup config n = Some config"
    using ensure_backup_refuse_alias [of config n co] by blast
next
  assume "backup_opts config = []"
  then show "backup_ok config" by (simp add: backup_ok_def)
next
  assume "backup_ok config \<and> ensure_backup config n = Some config1"
  then show "backup_ok config1"
    using ensure_backup_keeps [of config n config1] by blast
next
  assume h: "backup_ok config \<and> co_at config n = Some co
        \<and> M_OPT_TYPE_HAS_CHILD \<notin> type_flags (opt_type (co_opt co))
        \<and> M_OPT_GLOBAL \<notin> opt_flags (co_opt co)
        \<and> co_data co = Some a \<and> Some a \<notin> bk_data config ` set (backup_opts config)
        \<and> ensure_backup config n = Some config1 \<and> backup_step\<^sup>*\<^sup>* config1 config2"
  then have ok: "backup_ok config" and co: "co_at config n = Some co"
    and f1: "M_OPT_TYPE_HAS_CHILD \<notin> type_flags (opt_type (co_opt co))"
    and f2: "M_OPT_GLOBAL \<notin> opt_flags (co_opt co)"
    and a: "co_data co = Some a" and fresh: "Some a \<notin> bk_data config ` set (backup_opts config)"
    and e: "ensure_backup config n = Some config1"
    and steps: "backup_step\<^sup>*\<^sup>* config1 config2"
    by blast+
  have push: "config1 = co_update
      (config\<lparr>backup_opts := \<lparr>bk_co = n, bk_backup = optstruct config a\<rparr> # backup_opts config\<rparr>)
      n (\<lambda>co. co\<lparr>is_set_locally := True\<rparr>)"
    using ensure_backup_push [OF ok co f1 f2 a fresh] e by simp
  have n: "n < length (opts config)" "opts config ! n = co"
    using co by (auto simp: co_at_def split: if_splits)
  have ok1: "backup_ok config1"
    using ensure_backup_keeps [OF ok e] by blast
  show "is_set_locally (opts config1 ! n)"
    using n by (simp add: push co_update_def)
  have "\<lparr>bk_co = n, bk_backup = optstruct config a\<rparr> \<in> set (backup_opts config1)"
    by (simp add: push co_update_def)
  moreover have "n < length (opts config1)" "co_data (opts config1 ! n) = Some a"
    using n a by (simp_all add: push co_update_def)
  ultimately have "backed_up config1 n a (optstruct config a)"
    using ok1 unfolding backed_up_def by force
  with steps have "backed_up config2 n a (optstruct config a)"
    by (rule backed_up_steps)
  then show "\<exists>config3. m_config_restore_backups config2 = Some config3
                \<and> optstruct config3 a = optstruct config a
                \<and> \<not> is_set_locally (opts config3 ! n) \<and> backup_opts config3 = []"
    by (rule backed_up_restore)
qed

lemma volume_ensure: "ensure_backup volume_config 0 = Some volume_backed"
  by (simp add: ensure_backup_def volume_config_def volume_backed_def volume_registry_def
      mk_config_def mk_co_def mk_opt_def int_type_def flag_type_def co_at_def co_update_def
      m_option_copy_def)

lemma volume_step: "backup_step\<^sup>*\<^sup>* volume_backed volume_written"
  by (rule r_into_rtranclp) (simp add: backup_step_def volume_written_def)

theorem backup_restore_witness:
  "ensure_backup volume_config 0 = Some volume_backed
   \<and> optstruct volume_written 0 = 30
   \<and> ensure_backup volume_written 1 = Some volume_written
   \<and> (\<exists>config3. m_config_restore_backups volume_written = Some config3
         \<and> optstruct config3 0 = 100 \<and> \<not> is_set_locally (opts config3 ! 0)
         \<and> backup_opts config3 = [])"
proof -
  have ok: "backup_ok volume_config"
    by (simp add: backup_ok_def volume_config_def mk_config_def)
  have co: "co_at volume_config 0 = Some (mk_co ''volume'' (mk_opt int_type) (Some 0) 0 0)"
    by (simp add: co_at_def volume_config_def mk_config_def volume_registry_def)
  have ok2: "backup_ok volume_written"
    by (simp add: backup_ok_def volume_written_def volume_backed_def bk_data_def mk_co_def)
  have co2: "co_at volume_written 1 = Some (mk_co ''vol'' (mk_opt int_type) (Some 0) 0 8)"
    by (simp add: co_at_def volume_written_def volume_backed_def)
  have "co_data (mk_co ''vol'' (mk_opt int_type) (Some 0) 0 8)
          \<in> bk_data volume_written ` set (backup_opts volume_written)"
    by (simp add: bk_data_def volume_written_def volume_backed_def mk_co_def)
  with ok2 co2 have refused: "ensure_backup volume_written 1 = Some volume_written"
    using backup_restore [of volume_written 1 "mk_co ''vol'' (mk_opt int_type) (Some 0) 0 8",
        THEN conjunct2, THEN conjunct1]
    by blast
  have flags: "M_OPT_TYPE_HAS_CHILD
        \<notin> type_flags (opt_type (co_opt (mk_co ''volume'' (mk_opt int_type) (Some 0) 0 0)))"
    "M_OPT_GLOBAL \<notin> opt_flags (co_opt (mk_co ''volume'' (mk_opt int_type) (Some 0) 0 0))"
    "co_data (mk_co ''volume'' (mk_opt int_type) (Some 0) 0 0) = Some 0"
    by (simp_all add: mk_co_def mk_opt_def int_type_def)
  have fresh: "Some 0 \<notin> bk_data volume_config ` set (backup_opts volume_config)"
    by (simp add: volume_config_def mk_config_def)
  have "\<exists>config3. m_config_restore_backups volume_written = Some config3
          \<and> optstruct config3 0 = optstruct volume_config 0
          \<and> \<not> is_set_locally (opts config3 ! 0) \<and> backup_opts config3 = []"
    using backup_restore [of volume_config 0 "mk_co ''volume'' (mk_opt int_type) (Some 0) 0 0"
        volume_backed 0 volume_written, THEN conjunct2, THEN conjunct2, THEN conjunct2,
        THEN conjunct2]
      ok co flags fresh volume_ensure volume_step
    by blast
  moreover have "optstruct volume_config 0 = 100" by (simp add: volume_config_def)
  moreover have "optstruct volume_written 0 = 30" by (simp add: volume_written_def)
  ultimately show ?thesis
    using volume_ensure refused by simp
qed


subsection \<open>Change notification\<close>

lemma ts_incr:
  fixes x :: "64 word"
  assumes "sint x < 2 ^ 63 - 1"
  shows "sint (x + 1) = sint x + 1"
proof -
  have "- (2 ^ 63) \<le> sint x" using sint_ge [of x] by simp
  then have "signed_take_bit 63 (sint x + 1) = sint x + 1"
    using assms by (intro signed_take_bit_int_eq_self) simp_all
  then show ?thesis by (simp add: sint_word_add)
qed

lemma group_chain_le: "h \<in> set (group_chain gs g) \<Longrightarrow> 0 \<le> h \<and> h \<le> g \<and> nat h < length gs"
proof (induction gs g rule: group_chain.induct)
  case (1 gs g)
  show ?case
  proof (cases "0 \<le> g \<and> nat g < length gs")
    case False
    with "1.prems" show ?thesis by (simp add: group_chain.simps [of gs g])
  next
    case True
    show ?thesis
    proof (cases "parent_group (gs ! nat g) < g")
      case False
      with True "1.prems" show ?thesis by (simp add: group_chain.simps [of gs g])
    next
      case p: True
      from "1.prems" True p have "h = g \<or> h \<in> set (group_chain gs (parent_group (gs ! nat g)))"
        by (simp add: group_chain.simps [of gs g])
      then show ?thesis
      proof
        assume "h = g" with True show ?thesis by simp
      next
        assume "h \<in> set (group_chain gs (parent_group (gs ! nat g)))"
        from "1.IH" [OF True p this] p show ?thesis by simp
      qed
    qed
  qed
qed

lemma group_chain_cong:
  "map parent_group gs' = map parent_group gs \<Longrightarrow> group_chain gs' g = group_chain gs g"
proof (induction gs g rule: group_chain.induct)
  case (1 gs g)
  have l: "length gs' = length gs" using "1.prems" by (metis length_map)
  show ?case
  proof (cases "0 \<le> g \<and> nat g < length gs")
    case False
    with l show ?thesis by (auto simp: group_chain.simps [of gs g] group_chain.simps [of gs' g])
  next
    case True
    have p: "parent_group (gs' ! nat g) = parent_group (gs ! nat g)"
      using "1.prems" True by (metis length_map nth_map)
    show ?thesis
    proof (cases "parent_group (gs ! nat g) < g")
      case False
      with True l p show ?thesis
        by (simp add: group_chain.simps [of gs g] group_chain.simps [of gs' g])
    next
      case q: True
      from "1.IH" [OF True q "1.prems"] True l p q show ?thesis
        by (simp add: group_chain.simps [of gs g] group_chain.simps [of gs' g])
    qed
  qed
qed

lemma notify_groups_wf:
  assumes "groups_wf (groups c)" "g < int (length (groups c))"
  shows "\<exists>gs'. notify_groups c g
        = Some (c\<lparr>groups := gs', sync := sync c @ map Ts_fetch_add (group_chain (groups c) g)\<rparr>)
    \<and> map parent_group gs' = map parent_group (groups c)
    \<and> (\<forall>h < length (groups c).
          ts (gs' ! h) = (if int h \<in> set (group_chain (groups c) g)
                          then ts (groups c ! h) + 1 else ts (groups c ! h)))"
  using assms
proof (induction "nat (g + 1)" arbitrary: c g rule: less_induct)
  case less
  show ?case
  proof (cases "0 \<le> g")
    case False
    then have "notify_groups c g = Some c" "group_chain (groups c) g = []"
      by (simp_all add: notify_groups.simps [of c g] group_chain.simps [of "groups c" g])
    then have "notify_groups c g
        = Some (c\<lparr>groups := groups c,
                  sync := sync c @ map Ts_fetch_add (group_chain (groups c) g)\<rparr>)
      \<and> map parent_group (groups c) = map parent_group (groups c)
      \<and> (\<forall>h < length (groups c).
          ts (groups c ! h) = (if int h \<in> set (group_chain (groups c) g)
                          then ts (groups c ! h) + 1 else ts (groups c ! h)))"
      by simp
    then show ?thesis by blast
  next
    case True
    with less.prems have r: "nat g < length (groups c)" by simp
    define p where "p = parent_group (groups c ! nat g)"
    define c1 where "c1 = c\<lparr>groups := (groups c)
        [nat g := (groups c ! nat g)\<lparr>ts := ts (groups c ! nat g) + 1\<rparr>],
      sync := sync c @ [Ts_fetch_add g]\<rparr>"
    have pg: "p < g" using less.prems(1) r True by (auto simp: groups_wf_def p_def)
    have step: "notify_groups c g = notify_groups c1 p"
      using True r by (simp add: notify_groups.simps [of c g] c1_def p_def)
    have m1: "map parent_group (groups c1) = map parent_group (groups c)"
      using r by (simp add: c1_def map_update list_update_same_conv)
    have l1: "length (groups c1) = length (groups c)" by (simp add: c1_def)
    have par: "\<And>i. i < length (groups c) \<Longrightarrow>
        parent_group (groups c1 ! i) = parent_group (groups c ! i)"
      using r by (auto simp: c1_def nth_list_update)
    have wf1: "groups_wf (groups c1)"
      using less.prems(1) par l1 by (simp add: groups_wf_def)
    have "nat (p + 1) < nat (g + 1)" using pg True by simp
    moreover have "p < int (length (groups c1))" using pg less.prems(2) l1 by simp
    ultimately obtain gs' where gs': "notify_groups c1 p
        = Some (c1\<lparr>groups := gs',
                   sync := sync c1 @ map Ts_fetch_add (group_chain (groups c1) p)\<rparr>)"
      "map parent_group gs' = map parent_group (groups c1)"
      "\<forall>h < length (groups c1).
          ts (gs' ! h) = (if int h \<in> set (group_chain (groups c1) p)
                          then ts (groups c1 ! h) + 1 else ts (groups c1 ! h))"
      using less.hyps [of p c1] wf1 by blast
    have ch1: "group_chain (groups c1) p = group_chain (groups c) p"
      by (rule group_chain_cong [OF m1])
    have ch: "group_chain (groups c) g = g # group_chain (groups c) p"
      using True r pg by (simp add: group_chain.simps [of "groups c" g] p_def)
    have gnot: "g \<notin> set (group_chain (groups c) p)"
      using group_chain_le [of g "groups c" p] pg by auto
    have e: "notify_groups c g
        = Some (c\<lparr>groups := gs',
                  sync := sync c @ map Ts_fetch_add (group_chain (groups c) g)\<rparr>)"
      unfolding step gs'(1) ch1 ch by (simp add: c1_def)
    have t: "\<forall>h < length (groups c).
          ts (gs' ! h) = (if int h \<in> set (group_chain (groups c) g)
                          then ts (groups c ! h) + 1 else ts (groups c ! h))"
    proof (intro allI impI)
      fix h assume h: "h < length (groups c)"
      show "ts (gs' ! h) = (if int h \<in> set (group_chain (groups c) g)
                            then ts (groups c ! h) + 1 else ts (groups c ! h))"
      proof (cases "h = nat g")
        case hg: True
        then have ih: "int h = g" using True by simp
        with gs'(3) h l1 ch1 gnot have "ts (gs' ! h) = ts (groups c1 ! h)" by simp
        also have "\<dots> = ts (groups c ! h) + 1" using hg r by (simp add: c1_def)
        finally show ?thesis using ih ch by simp
      next
        case hg: False
        then have ne: "int h \<noteq> g" using True by auto
        have "ts (groups c1 ! h) = ts (groups c ! h)" using hg by (simp add: c1_def)
        with gs'(3) h l1 ch1 ne ch show ?thesis by simp
      qed
    qed
    show ?thesis
      using e gs'(2) m1 t by auto
  qed
qed

text \<open>
  C1: let the shadow exist and the groups be well formed with counters below the
  largest 64-bit value, and let an entry with live storage be committed through
  \<^verbatim>\<open>handle_on_set\<close>, that is, \<^verbatim>\<open>m_config_notify_change_co\<close>. Then the call returns; between
  locking and unlocking the shadow mutex it stores the live value in the shadow slot of
  the entry, if the entry has one, so that this slot equals the live slot afterwards;
  after that it adds one to the counter of the owning group and of every ancestor up
  to the root, in this order, and to no other counter. Each of these counters is
  strictly greater than before and no counter is smaller than before. The live storage
  and the parents of the groups are unchanged, and the message-control hook is called
  when \<^verbatim>\<open>config->global\<close> is set and the option has the flag \<^verbatim>\<open>M_OPT_TERM\<close>.
\<close>

theorem commit_propagates:
  assumes sh: "shadow config = Some sh" and co: "co_at config n = Some co"
    and a: "co_data co = Some a"
    and wf: "groups_wf (groups config)" and g: "co_group co < int (length (groups config))"
    and below: "\<forall>h \<in> set (group_chain (groups config) (co_group co)).
                 sint (ts (groups config ! nat h)) < 2 ^ 63 - 1"
  shows "\<exists>config'. handle_on_set config n flags = Some config'
    \<and> handle_on_set config n {} = m_config_notify_change_co config n
    \<and> shadow config'
        = Some (if 0 \<le> shadow_offset co then sh(shadow_offset co := optstruct config a) else sh)
    \<and> optstruct config' = optstruct config
    \<and> (0 \<le> shadow_offset co \<longrightarrow> the (shadow config') (shadow_offset co) = optstruct config' a)
    \<and> sync config' = sync config
          @ [Mutex_lock] @ (if 0 \<le> shadow_offset co then [Shadow_store (shadow_offset co)] else [])
          @ [Mutex_unlock]
          @ map Ts_fetch_add (group_chain (groups config) (co_group co))
    \<and> map parent_group (groups config') = map parent_group (groups config)
    \<and> (\<forall>h < length (groups config).
          ts (groups config' ! h)
            = (if int h \<in> set (group_chain (groups config) (co_group co))
               then ts (groups config ! h) + 1 else ts (groups config ! h))
          \<and> (int h \<in> set (group_chain (groups config) (co_group co))
                \<longrightarrow> ts (groups config ! h) <s ts (groups config' ! h))
          \<and> ts (groups config ! h) \<le>s ts (groups config' ! h))
    \<and> cfg_log config' = cfg_log config
          @ (if has_global config \<and> M_OPT_TERM \<in> opt_flags (co_opt co)
             then [Update_msglevels] else [])"
proof -
  define cm where "cm = (if M_SETOPT_FROM_CMDLINE \<in> flags
      then co_update config n (\<lambda>co. co\<lparr>is_set_from_cmdline := True\<rparr>) else config)"
  define com where "com = (if M_SETOPT_FROM_CMDLINE \<in> flags
      then co\<lparr>is_set_from_cmdline := True\<rparr> else co)"
  define chain where "chain = group_chain (groups config) (co_group co)"
  have n: "n < length (opts config)" "opts config ! n = co"
    using co by (auto simp: co_at_def split: if_splits)
  have com: "co_at cm n = Some com"
    using n by (simp add: cm_def com_def co_at_def co_update_def)
  have f: "co_data com = Some a" "shadow_offset com = shadow_offset co"
    "co_group com = co_group co" "co_opt com = co_opt co"
    by (simp_all add: com_def a)
  have same: "shadow cm = Some sh" "optstruct cm = optstruct config"
    "groups cm = groups config" "sync cm = sync config" "cfg_log cm = cfg_log config"
    "has_global cm = has_global config"
    by (simp_all add: cm_def co_update_def sh)
  define c2 where "c2 = (if 0 \<le> shadow_offset co
      then cm\<lparr>shadow := Some (sh(shadow_offset co := optstruct config a)),
              sync := sync config @ [Mutex_lock, Shadow_store (shadow_offset co), Mutex_unlock]\<rparr>
      else cm\<lparr>sync := sync config @ [Mutex_lock, Mutex_unlock]\<rparr>)"
  have g2: "groups c2 = groups config"
    "sync c2 = sync config @ [Mutex_lock]
       @ (if 0 \<le> shadow_offset co then [Shadow_store (shadow_offset co)] else [])
       @ [Mutex_unlock]"
    "shadow c2
       = Some (if 0 \<le> shadow_offset co then sh(shadow_offset co := optstruct config a) else sh)"
    "optstruct c2 = optstruct config" "cfg_log c2 = cfg_log config"
    by (simp_all add: c2_def same)
  have "groups_wf (groups c2)" "co_group co < int (length (groups c2))"
    using wf g by (simp_all add: g2)
  from notify_groups_wf [OF this] obtain gs' where gs':
    "notify_groups c2 (co_group co)
       = Some (c2\<lparr>groups := gs', sync := sync c2 @ map Ts_fetch_add chain\<rparr>)"
    "map parent_group gs' = map parent_group (groups config)"
    "\<forall>h < length (groups config).
        ts (gs' ! h) = (if int h \<in> set chain then ts (groups config ! h) + 1
                        else ts (groups config ! h))"
    unfolding g2(1) chain_def by blast
  define c3 where "c3 = c2\<lparr>groups := gs', sync := sync c2 @ map Ts_fetch_add chain\<rparr>"
  define c4 where "c4 = (if has_global config \<and> M_OPT_TERM \<in> opt_flags (co_opt co)
      then MP_MSG c3 Update_msglevels else c3)"
  have "m_config_notify_change_co cm n =
      (case notify_groups c2 (co_group co) of
         None \<Rightarrow> None
       | Some config2 \<Rightarrow>
           Some (if has_global config \<and> M_OPT_TERM \<in> opt_flags (co_opt co)
                 then MP_MSG config2 Update_msglevels else config2))"
    by (simp add: m_config_notify_change_co_def com f same m_option_copy_def c2_def
        cong: option.case_cong)
  then have res: "handle_on_set config n flags = Some c4"
    by (simp add: handle_on_set_def cm_def [symmetric] gs'(1) c3_def c4_def)
  have fields: "shadow c4
       = Some (if 0 \<le> shadow_offset co then sh(shadow_offset co := optstruct config a) else sh)"
    "optstruct c4 = optstruct config" "groups c4 = gs'"
    "sync c4 = sync config @ [Mutex_lock]
       @ (if 0 \<le> shadow_offset co then [Shadow_store (shadow_offset co)] else [])
       @ [Mutex_unlock] @ map Ts_fetch_add chain"
    "cfg_log c4 = cfg_log config
          @ (if has_global config \<and> M_OPT_TERM \<in> opt_flags (co_opt co)
             then [Update_msglevels] else [])"
    by (simp_all add: c4_def c3_def g2 MP_MSG_def)
  have order: "\<forall>h < length (groups config).
      (int h \<in> set chain \<longrightarrow> ts (groups config ! h) <s ts (gs' ! h))
      \<and> ts (groups config ! h) \<le>s ts (gs' ! h)"
  proof (intro allI impI)
    fix h assume h: "h < length (groups config)"
    show "(int h \<in> set chain \<longrightarrow> ts (groups config ! h) <s ts (gs' ! h))
      \<and> ts (groups config ! h) \<le>s ts (gs' ! h)"
    proof (cases "int h \<in> set chain")
      case True
      with below have "sint (ts (groups config ! h)) < 2 ^ 63 - 1"
        unfolding chain_def by fastforce
      then have "sint (ts (groups config ! h) + 1) = sint (ts (groups config ! h)) + 1"
        by (rule ts_incr)
      with gs'(3) h True show ?thesis
        by (simp add: word_sless_alt word_sle_eq)
    next
      case False
      with gs'(3) h show ?thesis by (simp add: word_sle_eq)
    qed
  qed
  have plain: "handle_on_set config n {} = m_config_notify_change_co config n"
    by (simp add: handle_on_set_def)
  show ?thesis
    using res plain fields gs'(2,3) order unfolding chain_def [symmetric]
    by (intro exI [of _ c4]) simp
qed

lemma group_config_chain: "group_chain (groups group_config) 2 = [2, 0]"
  by (simp add: group_chain.simps [of _ 2] group_chain.simps [of _ 0]
      group_chain.simps [of _ "- 1"] group_config_def)

lemma group_config_wf: "groups_wf (groups group_config)"
  by (simp add: groups_wf_def group_config_def nth_Cons' less_Suc_eq numeral_3_eq_3)

theorem commit_propagates_witness:
  "\<exists>config'. handle_on_set group_config 1 {} = Some config'
     \<and> optstruct config' 7 = 1 \<and> the (shadow config') 8 = 1
     \<and> ts (groups group_config ! 0) = 4 \<and> ts (groups config' ! 0) = 5
     \<and> ts (groups group_config ! 1) = 1 \<and> ts (groups config' ! 1) = 1
     \<and> ts (groups group_config ! 2) = 2 \<and> ts (groups config' ! 2) = 3
     \<and> sync config' = [Mutex_lock, Shadow_store 8, Mutex_unlock, Ts_fetch_add 2, Ts_fetch_add 0]"
proof -
  have h: "shadow group_config = Some (\<lambda>off. 0)"
    "co_at group_config 1 = Some (mk_co ''demuxer-lavf-hacks'' (mk_opt flag_type) (Some 7) 2 8)"
    "co_data (mk_co ''demuxer-lavf-hacks'' (mk_opt flag_type) (Some 7) 2 8) = Some 7"
    by (simp_all add: group_config_def mk_config_def group_registry_def co_at_def mk_co_def)
  have g: "co_group (mk_co ''demuxer-lavf-hacks'' (mk_opt flag_type) (Some 7) 2 8) = 2"
    "shadow_offset (mk_co ''demuxer-lavf-hacks'' (mk_opt flag_type) (Some 7) 2 8) = 8"
    by (simp_all add: mk_co_def)
  have l: "co_group (mk_co ''demuxer-lavf-hacks'' (mk_opt flag_type) (Some 7) 2 8)
      < int (length (groups group_config))"
    by (simp add: g group_config_def)
  have b: "\<forall>h \<in> set (group_chain (groups group_config)
                (co_group (mk_co ''demuxer-lavf-hacks'' (mk_opt flag_type) (Some 7) 2 8))).
             sint (ts (groups group_config ! nat h)) < 2 ^ 63 - 1"
    by (simp add: g group_config_chain) (simp add: group_config_def)
  from commit_propagates [OF h group_config_wf l b, of "{}"]
  obtain config' where c: "handle_on_set group_config 1 {} = Some config'"
    "optstruct config' = optstruct group_config"
    "the (shadow config') 8 = optstruct config' 7"
    "sync config' = sync group_config @ [Mutex_lock] @ [Shadow_store 8] @ [Mutex_unlock]
          @ map Ts_fetch_add [2, 0]"
    "\<forall>h < length (groups group_config).
          ts (groups config' ! h)
            = (if int h \<in> set [2, 0]
               then ts (groups group_config ! h) + 1 else ts (groups group_config ! h))"
    unfolding g group_config_chain by auto
  have t: "ts (groups group_config ! 0) = 4" "ts (groups group_config ! 1) = 1"
    "ts (groups group_config ! 2) = 2" "length (groups group_config) = 3"
    "optstruct group_config 7 = 1" "sync group_config = []"
    by (simp_all add: group_config_def mk_config_def)
  from c(5) t have "ts (groups config' ! 0) = 5" "ts (groups config' ! 1) = 1"
    "ts (groups config' ! 2) = 3"
    by simp_all
  with c(1,2,3,4) t show ?thesis by simp
qed

subsection \<open>Cache refresh\<close>

lemma find_append_case:
  "find P (xs @ ys) = (case find P xs of None \<Rightarrow> find P ys | Some x \<Rightarrow> Some x)"
  by (induction xs) auto

lemma cache_copy_opts_ok:
  assumes "\<forall>co \<in> set cos. 0 \<le> shadow_offset co \<longrightarrow> co_data co \<noteq> None"
  shows "\<exists>mem'. cache_copy_opts cos sh mem tr
      = Some (mem', tr @ map (\<lambda>co. Shadow_load (shadow_offset co))
                            (filter (\<lambda>co. 0 \<le> shadow_offset co) cos))
    \<and> (\<forall>a. mem' a = (case find (\<lambda>co. 0 \<le> shadow_offset co \<and> co_data co = Some a) (rev cos) of
                       None \<Rightarrow> mem a | Some co \<Rightarrow> sh (shadow_offset co)))"
  using assms
proof (induction cos arbitrary: mem tr)
  case Nil
  then show ?case by simp
next
  case (Cons co cos)
  have p: "\<forall>co \<in> set cos. 0 \<le> shadow_offset co \<longrightarrow> co_data co \<noteq> None"
    using Cons.prems by simp
  show ?case
  proof (cases "0 \<le> shadow_offset co")
    case False
    from Cons.IH [OF p, of mem tr] obtain mem' where m:
      "cache_copy_opts cos sh mem tr
        = Some (mem', tr @ map (\<lambda>co. Shadow_load (shadow_offset co))
                              (filter (\<lambda>co. 0 \<le> shadow_offset co) cos))"
      "\<forall>a. mem' a = (case find (\<lambda>co. 0 \<le> shadow_offset co \<and> co_data co = Some a) (rev cos) of
                       None \<Rightarrow> mem a | Some co \<Rightarrow> sh (shadow_offset co))"
      by blast
    with False show ?thesis
      by (auto simp: find_append_case split: option.splits)
  next
    case True
    with Cons.prems obtain a0 where a0: "co_data co = Some a0" by auto
    from Cons.IH [OF p, of "mem(a0 := sh (shadow_offset co))"
        "tr @ [Shadow_load (shadow_offset co)]"]
    obtain mem' where m:
      "cache_copy_opts cos sh (mem(a0 := sh (shadow_offset co)))
          (tr @ [Shadow_load (shadow_offset co)])
        = Some (mem', (tr @ [Shadow_load (shadow_offset co)])
                  @ map (\<lambda>co. Shadow_load (shadow_offset co))
                      (filter (\<lambda>co. 0 \<le> shadow_offset co) cos))"
      "\<forall>a. mem' a = (case find (\<lambda>co. 0 \<le> shadow_offset co \<and> co_data co = Some a) (rev cos) of
                       None \<Rightarrow> (mem(a0 := sh (shadow_offset co))) a
                     | Some co \<Rightarrow> sh (shadow_offset co))"
      by blast
    with True a0 show ?thesis
      by (auto simp: find_append_case m_option_copy_def split: option.splits)
  qed
qed

text \<open>
  C2: for a cache whose group is a group of the root and whose shadowed entries have
  storage, \<^verbatim>\<open>m_config_cache_update\<close> returns. It returns false exactly when the counter of
  the cache's group is not greater than the version the cache has recorded, and then
  the cache is unchanged. Otherwise it locks the shadow mutex, records the counter in
  the cache, copies the shadow slot of every shadowed entry of the cache's registry
  into the entry's slot in the cache, in the order of the registry (so a slot that
  several entries share ends with the value of the last of them), unlocks and returns
  true. The root changes in neither case, and the next call, with no commit in
  between, returns false and leaves the cache as it is.
\<close>

theorem cache_update_refresh:
  assumes sh: "shadow root = Some sh"
    and g: "0 \<le> cache_group cache" "nat (cache_group cache) < length (groups root)"
    and d: "\<forall>co \<in> set (opts (shadow_config cache)). 0 \<le> shadow_offset co \<longrightarrow> co_data co \<noteq> None"
  shows "\<exists>b root' cache'. m_config_cache_update root cache = Some (b, root', cache')
    \<and> (b \<longleftrightarrow> \<not> ts (groups root ! nat (cache_group cache)) \<le>s cache_ts cache)
    \<and> (\<not> b \<longrightarrow> cache' = cache \<and> sync root' = sync root @ [Ts_load (cache_group cache)])
    \<and> (b \<longrightarrow> cache_ts cache' = ts (groups root ! nat (cache_group cache))
          \<and> cache_group cache' = cache_group cache
          \<and> opts (shadow_config cache') = opts (shadow_config cache)
          \<and> (\<forall>a. optstruct (shadow_config cache') a
                 = (case find (\<lambda>co. 0 \<le> shadow_offset co \<and> co_data co = Some a)
                           (rev (opts (shadow_config cache))) of
                      None \<Rightarrow> optstruct (shadow_config cache) a
                    | Some co \<Rightarrow> sh (shadow_offset co)))
          \<and> sync root' = sync root
                @ [Ts_load (cache_group cache), Mutex_lock, Ts_load (cache_group cache)]
                @ map (\<lambda>co. Shadow_load (shadow_offset co))
                    (filter (\<lambda>co. 0 \<le> shadow_offset co) (opts (shadow_config cache)))
                @ [Mutex_unlock])
    \<and> groups root' = groups root \<and> shadow root' = shadow root
    \<and> (\<exists>root''. m_config_cache_update root' cache' = Some (False, root'', cache'))"
proof (cases "ts (groups root ! nat (cache_group cache)) \<le>s cache_ts cache")
  case True
  define root' where "root' = root\<lparr>sync := sync root @ [Ts_load (cache_group cache)]\<rparr>"
  have r: "m_config_cache_update root cache = Some (False, root', cache)"
    using sh g True by (simp add: m_config_cache_update_def root'_def)
  have "m_config_cache_update root' cache
      = Some (False, root'\<lparr>sync := sync root' @ [Ts_load (cache_group cache)]\<rparr>, cache)"
    using sh g True by (simp add: m_config_cache_update_def root'_def)
  with r True show ?thesis
    by (intro exI [of _ False] exI [of _ root'] exI [of _ cache]) (simp add: root'_def)
next
  case False
  define tr where "tr = sync root @ [Ts_load (cache_group cache), Mutex_lock,
      Ts_load (cache_group cache)]"
  from cache_copy_opts_ok [OF d, of sh "optstruct (shadow_config cache)" tr]
  obtain mem' where m: "cache_copy_opts (opts (shadow_config cache)) sh
        (optstruct (shadow_config cache)) tr
      = Some (mem', tr @ map (\<lambda>co. Shadow_load (shadow_offset co))
                (filter (\<lambda>co. 0 \<le> shadow_offset co) (opts (shadow_config cache))))"
    "\<forall>a. mem' a = (case find (\<lambda>co. 0 \<le> shadow_offset co \<and> co_data co = Some a)
                           (rev (opts (shadow_config cache))) of
                      None \<Rightarrow> optstruct (shadow_config cache) a
                    | Some co \<Rightarrow> sh (shadow_offset co))"
    by blast
  define root' where "root' = root\<lparr>sync := (tr @ map (\<lambda>co. Shadow_load (shadow_offset co))
                (filter (\<lambda>co. 0 \<le> shadow_offset co) (opts (shadow_config cache))))
              @ [Mutex_unlock]\<rparr>"
  define cache' where "cache' = cache\<lparr>cache_ts := ts (groups root ! nat (cache_group cache)),
      shadow_config := (shadow_config cache)\<lparr>optstruct := mem'\<rparr>\<rparr>"
  have r: "m_config_cache_update root cache = Some (True, root', cache')"
    using sh g False m(1)
    by (simp add: m_config_cache_update_def root'_def cache'_def tr_def)
  have "m_config_cache_update root' cache'
      = Some (False, root'\<lparr>sync := sync root' @ [Ts_load (cache_group cache)]\<rparr>, cache')"
    using sh g by (simp add: m_config_cache_update_def root'_def cache'_def)
  with r False m(2) show ?thesis
    by (intro exI [of _ True] exI [of _ root'] exI [of _ cache'])
      (simp add: root'_def cache'_def tr_def)
qed

theorem cache_update_refresh_witness:
  "\<exists>root' cache'. m_config_cache_update group_config lavf_cache = Some (True, root', cache')
     \<and> cache_ts cache' = 2 \<and> optstruct (shadow_config cache') 7 = 0
     \<and> sync root' = [Ts_load 2, Mutex_lock, Ts_load 2, Shadow_load 8, Mutex_unlock]
     \<and> (\<exists>root''. m_config_cache_update root' cache' = Some (False, root'', cache'))"
proof -
  have h: "shadow group_config = Some (\<lambda>off. 0)" "0 \<le> cache_group lavf_cache"
    "nat (cache_group lavf_cache) < length (groups group_config)"
    "\<forall>co \<in> set (opts (shadow_config lavf_cache)). 0 \<le> shadow_offset co \<longrightarrow> co_data co \<noteq> None"
    by (simp_all add: group_config_def lavf_cache_def mk_config_def mk_co_def)
  have n: "\<not> ts (groups group_config ! nat (cache_group lavf_cache)) \<le>s cache_ts lavf_cache"
    by (simp add: group_config_def lavf_cache_def word_sle_eq)
  from cache_update_refresh [OF h]
  obtain b root' cache' where c0:
    "m_config_cache_update group_config lavf_cache = Some (b, root', cache')
    \<and> (b \<longleftrightarrow> \<not> ts (groups group_config ! nat (cache_group lavf_cache)) \<le>s cache_ts lavf_cache)
    \<and> (\<not> b \<longrightarrow> cache' = lavf_cache
          \<and> sync root' = sync group_config @ [Ts_load (cache_group lavf_cache)])
    \<and> (b \<longrightarrow> cache_ts cache' = ts (groups group_config ! nat (cache_group lavf_cache))
          \<and> cache_group cache' = cache_group lavf_cache
          \<and> opts (shadow_config cache') = opts (shadow_config lavf_cache)
          \<and> (\<forall>a. optstruct (shadow_config cache') a
                 = (case find (\<lambda>co. 0 \<le> shadow_offset co \<and> co_data co = Some a)
                           (rev (opts (shadow_config lavf_cache))) of
                      None \<Rightarrow> optstruct (shadow_config lavf_cache) a
                    | Some co \<Rightarrow> (\<lambda>off. 0) (shadow_offset co)))
          \<and> sync root' = sync group_config
                @ [Ts_load (cache_group lavf_cache), Mutex_lock, Ts_load (cache_group lavf_cache)]
                @ map (\<lambda>co. Shadow_load (shadow_offset co))
                    (filter (\<lambda>co. 0 \<le> shadow_offset co) (opts (shadow_config lavf_cache)))
                @ [Mutex_unlock])
    \<and> groups root' = groups group_config \<and> shadow root' = shadow group_config
    \<and> (\<exists>root''. m_config_cache_update root' cache' = Some (False, root'', cache'))"
    by blast
  with n have b: "b" by blast
  with c0 have c:
    "m_config_cache_update group_config lavf_cache = Some (True, root', cache')"
    "cache_ts cache' = ts (groups group_config ! nat (cache_group lavf_cache))"
    "\<forall>a. optstruct (shadow_config cache') a
                 = (case find (\<lambda>co. 0 \<le> shadow_offset co \<and> co_data co = Some a)
                           (rev (opts (shadow_config lavf_cache))) of
                      None \<Rightarrow> optstruct (shadow_config lavf_cache) a
                    | Some co \<Rightarrow> (\<lambda>off. 0) (shadow_offset co))"
    "sync root' = sync group_config
                @ [Ts_load (cache_group lavf_cache), Mutex_lock, Ts_load (cache_group lavf_cache)]
                @ map (\<lambda>co. Shadow_load (shadow_offset co))
                    (filter (\<lambda>co. 0 \<le> shadow_offset co) (opts (shadow_config lavf_cache)))
                @ [Mutex_unlock]"
    "\<exists>root''. m_config_cache_update root' cache' = Some (False, root'', cache')"
    by simp_all
  have "optstruct (shadow_config cache') 7 = 0"
    using c(3) by (simp add: lavf_cache_def mk_config_def mk_co_def)
  moreover have "cache_ts cache' = 2"
    using c(2) by (simp add: group_config_def lavf_cache_def)
  moreover have "sync root' = [Ts_load 2, Mutex_lock, Ts_load 2, Shadow_load 8, Mutex_unlock]"
    using c(4) by (simp add: group_config_def lavf_cache_def mk_config_def mk_co_def)
  ultimately show ?thesis using c(1,5) by blast
qed

subsection \<open>Negation\<close>

text \<open>
  Resolving a name a second time gives the same entry and prints nothing more; the
  entry that is returned is one of the registry.
\<close>

lemma same_registry_refl: "same_registry c c"
  by (simp add: same_registry_def)

lemma same_registry_length: "same_registry c c' \<Longrightarrow> length (opts c') = length (opts c)"
  unfolding same_registry_def by (metis length_map)

lemma same_registry_nth:
  assumes "same_registry c c'" "n < length (opts c)"
  shows "co_name (opts c' ! n) = co_name (opts c ! n)"
    and "co_opt (opts c' ! n) = co_opt (opts c ! n)"
    and "warning_was_printed (opts c ! n) \<Longrightarrow> warning_was_printed (opts c' ! n)"
proof -
  have l: "n < length (opts c')" using assms same_registry_length by metis
  have "map co_name (opts c') ! n = map co_name (opts c) ! n"
    "map co_opt (opts c') ! n = map co_opt (opts c) ! n"
    using assms(1) by (simp_all add: same_registry_def)
  then show "co_name (opts c' ! n) = co_name (opts c ! n)"
    and "co_opt (opts c' ! n) = co_opt (opts c ! n)"
    using l assms(2) by simp_all
  show "warning_was_printed (opts c ! n) \<Longrightarrow> warning_was_printed (opts c' ! n)"
    using assms by (simp add: same_registry_def)
qed

lemma same_registry_trans:
  assumes "same_registry a b" "same_registry b c"
  shows "same_registry a c"
proof -
  have l: "length (opts b) = length (opts a)" using assms(1) by (rule same_registry_length)
  show ?thesis
    using assms l unfolding same_registry_def by auto
qed

lemma same_registry_warn_once: "same_registry c (warn_once c n m)"
proof (cases "n < length (opts c)")
  case True
  then show ?thesis
    by (auto simp: same_registry_def warn_once_def co_update_def MP_MSG_def map_update
        list_update_same_conv nth_list_update)
next
  case False
  then show ?thesis
    by (auto simp: same_registry_def warn_once_def co_update_def MP_MSG_def list_update_beyond)
qed

lemma warn_once_printed:
  "n < length (opts c) \<Longrightarrow> warning_was_printed (opts (warn_once c n m) ! n)"
  by (simp add: warn_once_def co_update_def MP_MSG_def)

lemma warn_once_idem: "warning_was_printed (opts c ! n) \<Longrightarrow> warn_once c n m = c"
  by (simp add: warn_once_def)

lemma first_match_cong:
  "map co_name xs = map co_name ys \<Longrightarrow> map co_opt xs = map co_opt ys \<Longrightarrow>
     first_match xs name = first_match ys name"
proof (induction xs arbitrary: ys)
  case Nil
  then show ?case by simp
next
  case (Cons x xs)
  then obtain y ys' where ys: "ys = y # ys'" by (cases ys) auto
  with Cons.prems have "co_name x = co_name y" "co_opt x = co_opt y"
    "map co_name xs = map co_name ys'" "map co_opt xs = map co_opt ys'"
    by simp_all
  with Cons.IH [of ys'] ys show ?case
    by (simp add: co_matches_def)
qed

lemma same_registry_first_match:
  "same_registry c c' \<Longrightarrow> first_match (opts c') name = first_match (opts c) name"
  unfolding same_registry_def by (intro first_match_cong) simp_all

lemma get_co_stable:
  assumes "m_config_get_co c name = Some y"
  shows "same_registry c (snd y) \<and> (\<forall>n. fst y = Some n \<longrightarrow> n < length (opts (snd y)))
         \<and> m_config_get_co (snd y) name = Some y"
  using assms
proof (induction c name y rule: m_config_get_co.raw_induct [rotated 1, consumes 1])
  case (1 f config name y)
  show ?case
  proof (cases "name = []")
    case True
    with "1"(2) have "y = (None, config)" by simp
    with True show ?thesis
      by (simp add: same_registry_refl m_config_get_co.simps [of config])
  next
    case False
    show ?thesis
    proof (cases "first_match (opts config) name")
      case None
      with "1"(2) False have "y = (None, config)" by simp
      with None False show ?thesis
        by (simp add: same_registry_refl m_config_get_co.simps [of config])
    next
      case (Some n)
      then have n: "n < length (opts config)" by (rule first_match_bound)
      define co where "co = opts config ! n"
      consider (is_alias) "type_id (opt_type (co_opt co)) = m_option_type_alias"
        | (is_removed) "type_id (opt_type (co_opt co)) \<noteq> m_option_type_alias"
            "type_id (opt_type (co_opt co)) = m_option_type_removed"
        | (is_deprecated) "type_id (opt_type (co_opt co)) \<noteq> m_option_type_alias"
            "type_id (opt_type (co_opt co)) \<noteq> m_option_type_removed"
            "deprecation_message (co_opt co) \<noteq> None"
        | (is_plain) "type_id (opt_type (co_opt co)) \<noteq> m_option_type_alias"
            "type_id (opt_type (co_opt co)) \<noteq> m_option_type_removed"
            "deprecation_message (co_opt co) = None"
        by blast
      then show ?thesis
      proof cases
        case is_alias
        define c1 where "c1 = (if deprecation_message (co_opt co) \<noteq> None
            then warn_once config n
                   (Warn_replaced (toplevel_prefix config) (co_name co) (alias_target co))
            else config)"
        from "1"(2) False Some is_alias have fy: "f c1 (alias_target co) = Some y"
          by (auto simp: co_def c1_def split: if_splits)
        from "1"(1) [OF fy] have ih: "same_registry c1 (snd y)"
          "\<forall>n. fst y = Some n \<longrightarrow> n < length (opts (snd y))"
          "m_config_get_co (snd y) (alias_target co) = Some y"
          by simp_all
        have s1: "same_registry config c1"
          by (simp add: c1_def same_registry_refl same_registry_warn_once)
        have s: "same_registry config (snd y)"
          using s1 ih(1) by (rule same_registry_trans)
        have n1: "n < length (opts c1)" using s1 n same_registry_length by metis
        have fm: "first_match (opts (snd y)) name = Some n"
          using same_registry_first_match [OF s] Some by simp
        have e: "co_name (opts (snd y) ! n) = co_name co" "co_opt (opts (snd y) ! n) = co_opt co"
          using same_registry_nth [OF s n] by (simp_all add: co_def)
        have w: "deprecation_message (co_opt co) \<noteq> None
            \<Longrightarrow> warning_was_printed (opts (snd y) ! n)"
        proof -
          assume "deprecation_message (co_opt co) \<noteq> None"
          then have "warning_was_printed (opts c1 ! n)"
            using n by (simp add: c1_def warn_once_printed)
          then show ?thesis using same_registry_nth(3) [OF ih(1) n1] by simp
        qed
        have at: "alias_target (opts (snd y) ! n) = alias_target co"
          by (simp add: alias_target_def e)
        have "m_config_get_co (snd y) name = m_config_get_co (snd y) (alias_target co)"
          using False fm is_alias w
          by (subst m_config_get_co.simps) (auto simp: e at warn_once_idem)
        with ih s show ?thesis by simp
      next
        case is_removed
        define c1 where "c1 = warn_once config n
            (Fatal_removed (toplevel_prefix config) (co_name co) (opt_priv (co_opt co)))"
        from "1"(2) False Some is_removed have y: "y = (None, c1)"
          by (simp add: co_def c1_def)
        have s: "same_registry config c1" by (simp add: c1_def same_registry_warn_once)
        have fm: "first_match (opts c1) name = Some n"
          using same_registry_first_match [OF s] Some by simp
        have e: "co_name (opts c1 ! n) = co_name co" "co_opt (opts c1 ! n) = co_opt co"
          using same_registry_nth [OF s n] by (simp_all add: co_def)
        have w: "warning_was_printed (opts c1 ! n)"
          using n by (simp add: c1_def warn_once_printed)
        have "m_config_get_co c1 name = Some (None, c1)"
          using False fm is_removed w
          by (subst m_config_get_co.simps) (simp add: e warn_once_idem)
        with y s show ?thesis by simp
      next
        case is_deprecated
        define c1 where "c1 = warn_once config n
            (Warn_deprecated (toplevel_prefix config) (co_name co)
               (the (deprecation_message (co_opt co))))"
        from "1"(2) False Some is_deprecated have y: "y = (Some n, c1)"
          by (simp add: co_def c1_def)
        have s: "same_registry config c1" by (simp add: c1_def same_registry_warn_once)
        have fm: "first_match (opts c1) name = Some n"
          using same_registry_first_match [OF s] Some by simp
        have e: "co_name (opts c1 ! n) = co_name co" "co_opt (opts c1 ! n) = co_opt co"
          using same_registry_nth [OF s n] by (simp_all add: co_def)
        have w: "warning_was_printed (opts c1 ! n)"
          using n by (simp add: c1_def warn_once_printed)
        have n1: "n < length (opts c1)" using s n same_registry_length by metis
        have "m_config_get_co c1 name = Some (Some n, c1)"
          using False fm is_deprecated w
          by (subst m_config_get_co.simps) (simp add: e warn_once_idem)
        with y s n1 show ?thesis by simp
      next
        case is_plain
        from "1"(2) False Some is_plain have y: "y = (Some n, config)"
          by (simp add: co_def)
        have "m_config_get_co config name = Some (Some n, config)"
          using False Some is_plain
          by (subst m_config_get_co.simps) (simp add: co_def)
        with y n show ?thesis by (simp add: same_registry_refl)
      qed
    qed
  qed
qed

lemma find_negation_opt_eq:
  assumes "m_config_get_co config name = Some (None, config1)"
  shows "m_config_find_negation_opt config1 name =
    (if \<not> bstr_startswith0 name ''no-'' then Some (None, name, config1)
     else case m_config_get_co config1 (drop 3 name) of
       None \<Rightarrow> None
     | Some (None, c) \<Rightarrow> Some (None, drop 3 name, c)
     | Some (Some n, c) \<Rightarrow>
         Some (if is_negatable (opts c ! n) then Some n else None, drop 3 name, c))"
proof -
  from get_co_stable [OF assms] have again: "m_config_get_co config1 name = Some (None, config1)"
    by simp
  show ?thesis
  proof (cases "bstr_startswith0 name ''no-''")
    case False
    with again show ?thesis by (simp add: m_config_find_negation_opt_def)
  next
    case True
    show ?thesis
    proof (cases "m_config_get_co config1 (drop 3 name)")
      case None
      with True again show ?thesis by (simp add: m_config_find_negation_opt_def)
    next
      case (Some y)
      obtain r c where y: "y = (r, c)" by (cases y)
      show ?thesis
      proof (cases r)
        case None
        with True again Some y show ?thesis by (simp add: m_config_find_negation_opt_def)
      next
        case (Some n)
        with get_co_stable [OF \<open>m_config_get_co config1 (drop 3 name) = Some y\<close>] y
        have "n < length (opts c)" by simp
        then have "co_at c n = Some (opts c ! n)" by (simp add: co_at_def)
        with True again Some y \<open>m_config_get_co config1 (drop 3 name) = Some y\<close>
        show ?thesis by (simp add: m_config_find_negation_opt_def)
      qed
    qed
  qed
qed

lemma is_negatable_iff:
  "is_negatable co \<longleftrightarrow>
     type_id (opt_type (co_opt co)) \<in> {CONF_TYPE_FLAG, CONF_TYPE_CHOICE, m_option_type_aspect}"
  by (auto simp: is_negatable_def)

text \<open>
  C5: let \<^verbatim>\<open>m_config_get_co\<close> find no entry for the name. Then
  \<^verbatim>\<open>m_config_find_negation_opt\<close> finds an entry exactly when the name starts with \<^verbatim>\<open>no-\<close>
  and the name without this prefix resolves to an entry whose type is the flag, the
  choice or the aspect type. When it finds the entry, \<^verbatim>\<open>m_config_parse_option\<close> returns
  \<^verbatim>\<open>M_OPT_DISALLOW_PARAM\<close> for a parameter that is not empty and otherwise goes on with
  the entry, the name without the prefix and the parameter \<^verbatim>\<open>no\<close>. When it finds none
  (the prefix is missing, the rest of the name does not resolve, or the type is
  another one), \<^verbatim>\<open>m_config_parse_option\<close> returns \<^verbatim>\<open>M_OPT_UNKNOWN\<close>.
\<close>

theorem negation_resolution:
  assumes "m_config_get_co config name = Some (None, config1)"
  shows "((\<exists>n nm c. m_config_find_negation_opt config1 name = Some (Some n, nm, c))
        \<longleftrightarrow> bstr_startswith0 name ''no-''
            \<and> (\<exists>n c. m_config_get_co config1 (drop 3 name) = Some (Some n, c)
                  \<and> type_id (opt_type (co_opt (opts c ! n)))
                      \<in> {CONF_TYPE_FLAG, CONF_TYPE_CHOICE, m_option_type_aspect}))
    \<and> (\<forall>n nm c. m_config_find_negation_opt config1 name = Some (Some n, nm, c)
          \<longrightarrow> nm = drop 3 name
              \<and> m_config_get_co config1 (drop 3 name) = Some (Some n, c)
              \<and> m_config_parse_option (Suc k) ext config name param flags
                  = (if param \<noteq> [] then Some (M_OPT_DISALLOW_PARAM, c)
                     else parse_option_co (m_config_parse_option k ext) k ext c n
                            (drop 3 name) ''no'' flags))
    \<and> (\<forall>nm c. m_config_find_negation_opt config1 name = Some (None, nm, c)
          \<longrightarrow> m_config_parse_option (Suc k) ext config name param flags
                = Some (M_OPT_UNKNOWN, c))
    \<and> (\<not> bstr_startswith0 name ''no-''
          \<longrightarrow> m_config_parse_option (Suc k) ext config name param flags
                = Some (M_OPT_UNKNOWN, config1))
    \<and> (\<forall>n c. bstr_startswith0 name ''no-''
            \<and> m_config_get_co config1 (drop 3 name) = Some (Some n, c)
            \<and> type_id (opt_type (co_opt (opts c ! n)))
                 \<notin> {CONF_TYPE_FLAG, CONF_TYPE_CHOICE, m_option_type_aspect}
          \<longrightarrow> m_config_parse_option (Suc k) ext config name param flags
                = Some (M_OPT_UNKNOWN, c))
    \<and> (\<forall>c. bstr_startswith0 name ''no-''
            \<and> m_config_get_co config1 (drop 3 name) = Some (None, c)
          \<longrightarrow> m_config_parse_option (Suc k) ext config name param flags
                = Some (M_OPT_UNKNOWN, c))"
proof -
  note neg = find_negation_opt_eq [OF assms]
  have po: "m_config_parse_option (Suc k) ext config name param flags =
    (case m_config_find_negation_opt config1 name of
       None \<Rightarrow> None
     | Some (co1, name1, config2) \<Rightarrow>
         (case co1 of
            None \<Rightarrow> Some (M_OPT_UNKNOWN, config2)
          | Some n \<Rightarrow>
              if length param \<noteq> 0 then Some (M_OPT_DISALLOW_PARAM, config2)
              else parse_option_co (m_config_parse_option k ext) k ext config2 n
                     name1 ''no'' flags))"
    using assms by simp
  have c1: "(\<exists>n nm c. m_config_find_negation_opt config1 name = Some (Some n, nm, c))
        \<longleftrightarrow> bstr_startswith0 name ''no-''
            \<and> (\<exists>n c. m_config_get_co config1 (drop 3 name) = Some (Some n, c)
                  \<and> type_id (opt_type (co_opt (opts c ! n)))
                      \<in> {CONF_TYPE_FLAG, CONF_TYPE_CHOICE, m_option_type_aspect})"
    unfolding neg is_negatable_iff [symmetric]
    by (auto split: option.splits if_splits)
  have c2: "\<forall>n nm c. m_config_find_negation_opt config1 name = Some (Some n, nm, c)
          \<longrightarrow> nm = drop 3 name
              \<and> m_config_get_co config1 (drop 3 name) = Some (Some n, c)
              \<and> m_config_parse_option (Suc k) ext config name param flags
                  = (if param \<noteq> [] then Some (M_OPT_DISALLOW_PARAM, c)
                     else parse_option_co (m_config_parse_option k ext) k ext c n
                            (drop 3 name) ''no'' flags)"
  proof (intro allI impI)
    fix n nm c assume f: "m_config_find_negation_opt config1 name = Some (Some n, nm, c)"
    then have "nm = drop 3 name \<and> m_config_get_co config1 (drop 3 name) = Some (Some n, c)"
      unfolding neg by (auto split: option.splits if_splits)
    then show "nm = drop 3 name
              \<and> m_config_get_co config1 (drop 3 name) = Some (Some n, c)
              \<and> m_config_parse_option (Suc k) ext config name param flags
                  = (if param \<noteq> [] then Some (M_OPT_DISALLOW_PARAM, c)
                     else parse_option_co (m_config_parse_option k ext) k ext c n
                            (drop 3 name) ''no'' flags)"
      unfolding po f by simp
  qed
  have c3: "\<forall>nm c. m_config_find_negation_opt config1 name = Some (None, nm, c)
          \<longrightarrow> m_config_parse_option (Suc k) ext config name param flags
                = Some (M_OPT_UNKNOWN, c)"
    unfolding po by simp
  have c4: "\<not> bstr_startswith0 name ''no-''
          \<longrightarrow> m_config_parse_option (Suc k) ext config name param flags
                = Some (M_OPT_UNKNOWN, config1)"
    unfolding po neg by simp
  have c5: "\<forall>n c. bstr_startswith0 name ''no-''
            \<and> m_config_get_co config1 (drop 3 name) = Some (Some n, c)
            \<and> type_id (opt_type (co_opt (opts c ! n)))
                 \<notin> {CONF_TYPE_FLAG, CONF_TYPE_CHOICE, m_option_type_aspect}
          \<longrightarrow> m_config_parse_option (Suc k) ext config name param flags
                = Some (M_OPT_UNKNOWN, c)"
    unfolding po neg is_negatable_iff [symmetric] by simp
  have c6: "\<forall>c. bstr_startswith0 name ''no-''
            \<and> m_config_get_co config1 (drop 3 name) = Some (None, c)
          \<longrightarrow> m_config_parse_option (Suc k) ext config name param flags
                = Some (M_OPT_UNKNOWN, c)"
    unfolding po neg by simp
  from c1 c2 c3 c4 c5 c6 show ?thesis by blast
qed

lemma mute_no_mute:
  "m_config_get_co (mk_config mute_registry) ''no-mute'' = Some (None, mk_config mute_registry)"
  by (simp add: m_config_get_co.simps mk_config_def mute_registry_def mk_co_def mk_opt_def
      flag_type_def co_matches_def)

lemma mute_mute:
  "m_config_get_co (mk_config mute_registry) ''mute'' = Some (Some 0, mk_config mute_registry)"
  by (simp add: m_config_get_co.simps mk_config_def mute_registry_def mk_co_def mk_opt_def
      flag_type_def co_matches_def)

lemma mute_find_negation:
  "m_config_find_negation_opt (mk_config mute_registry) ''no-mute''
     = Some (Some 0, ''mute'', mk_config mute_registry)"
  by (simp add: m_config_find_negation_opt_def mute_no_mute mute_mute bstr_startswith0_def)
    (simp add: co_at_def is_negatable_def mk_config_def mute_registry_def mk_co_def mk_opt_def
      flag_type_def)

theorem negation_resolution_witness:
  "m_config_get_co (mk_config mute_registry) ''no-mute'' = Some (None, mk_config mute_registry)
   \<and> m_config_find_negation_opt (mk_config mute_registry) ''no-mute''
       = Some (Some 0, ''mute'', mk_config mute_registry)
   \<and> m_config_parse_option 1 example_ext (mk_config mute_registry) ''no-mute'' ''yes'' {}
       = Some (M_OPT_DISALLOW_PARAM, mk_config mute_registry)
   \<and> m_config_parse_option 2 example_ext (mk_config mute_registry) ''no-mute'' [] {}
       = parse_option_co (m_config_parse_option 1 example_ext) 1 example_ext
           (mk_config mute_registry) 0 ''mute'' ''no'' {}"
proof -
  note t = negation_resolution [OF mute_no_mute]
  from t [of 0 example_ext "''yes''" "{}", THEN conjunct2, THEN conjunct1] mute_find_negation
  have "m_config_parse_option (Suc 0) example_ext (mk_config mute_registry) ''no-mute'' ''yes'' {}
       = Some (M_OPT_DISALLOW_PARAM, mk_config mute_registry)"
    by simp
  moreover
  from t [of 1 example_ext "[]" "{}", THEN conjunct2, THEN conjunct1] mute_find_negation
  have "m_config_parse_option (Suc 1) example_ext (mk_config mute_registry) ''no-mute'' [] {}
       = parse_option_co (m_config_parse_option 1 example_ext) 1 example_ext
           (mk_config mute_registry) 0 ''mute'' ''no'' {}"
    by simp
  ultimately show ?thesis
    using mute_no_mute mute_find_negation by (simp add: numeral_2_eq_2)
qed

subsection \<open>Profile depth\<close>

lemma self_referring_cong:
  "opts c' = opts c \<Longrightarrow> profiles c' = profiles c \<Longrightarrow> use_profiles c' = use_profiles c \<Longrightarrow>
     self_referring ext c' pname n = self_referring ext c pname n"
  by (simp add: self_referring_def m_config_get_profile0_def m_config_get_profile_def
      profile_at_def)

lemma profile_at_cong: "profiles c' = profiles c \<Longrightarrow> profile_at c' p = profile_at c p"
  by (simp add: profile_at_def)

lemma plain_get_co:
  assumes "first_match (opts c) name = Some n" "name \<noteq> []"
    and "type_id (opt_type (co_opt (opts c ! n))) \<noteq> m_option_type_alias"
    and "type_id (opt_type (co_opt (opts c ! n))) \<noteq> m_option_type_removed"
    and "deprecation_message (co_opt (opts c ! n)) = None"
  shows "m_config_get_co c name = Some (Some n, c)"
  using assms by (subst m_config_get_co.simps) simp

lemma committing_gate:
  assumes "co_at c n = Some co" "committing fl" "M_OPT_NOCFG \<notin> opt_flags (co_opt co)"
  shows "handle_set_opt_flags c n (insert M_SETOPT_FROM_CONFIG_FILE fl) = Some (2, c)"
proof -
  have "M_SETOPT_CHECK_ONLY \<notin> fl" "M_SETOPT_PRE_PARSE_ONLY \<notin> fl"
    "M_SETOPT_PRESERVE_CMDLINE \<notin> fl" "M_SETOPT_NO_FIXED \<notin> fl" "M_SETOPT_NO_PRE_PARSE \<notin> fl"
    "M_SETOPT_BACKUP \<notin> fl"
    using assms(2) by (auto simp: committing_def)
  with assms(1,3) show ?thesis
    by (simp add: handle_set_opt_flags_def Let_def)
qed

lemma set_profile_guard:
  assumes "m_config_get_profile0 c pname = Some p" "MAX_PROFILE_DEPTH < profile_depth c"
  shows "m_config_set_profile k ext c pname fl = Some (M_OPT_UNKNOWN, MP_MSG c Warn_profile_too_deep)"
  using assms by (simp add: m_config_set_profile_def m_config_set_profile_with_def)

lemma set_profile_level:
  assumes sr: "self_referring ext c pname n" and fl: "committing fl"
    and d: "profile_depth c \<le> MAX_PROFILE_DEPTH"
    and nested: "m_config_set_profile (Suc k) ext
        (MP_MSG (c\<lparr>profile_depth := profile_depth c + 1\<rparr>)
           (Verbose_setting ''profile'' pname (insert M_SETOPT_FROM_CONFIG_FILE fl)))
        pname (insert M_SETOPT_FROM_CONFIG_FILE fl) = Some (r1, c1)"
    and keep: "profiles c1 = profiles c"
  shows "m_config_set_profile (Suc (Suc k)) ext c pname fl =
    Some (0, (if r1 < 0 \<and> r1 > M_OPT_EXIT
              then MP_MSG c1 (Err_parsing_option ''profile'' r1) else c1)
             \<lparr>profile_depth :=
                profile_depth (if r1 < 0 \<and> r1 > M_OPT_EXIT
                               then MP_MSG c1 (Err_parsing_option ''profile'' r1) else c1) - 1\<rparr>)"
proof -
  define fl' where "fl' = insert M_SETOPT_FROM_CONFIG_FILE fl"
  define cD where "cD = c\<lparr>profile_depth := profile_depth c + 1\<rparr>"
  define cV where "cV = MP_MSG cD (Verbose_setting ''profile'' pname fl')"
  define c1' where "c1' = (if r1 < 0 \<and> r1 > M_OPT_EXIT
      then MP_MSG c1 (Err_parsing_option ''profile'' r1) else c1)"
  define co where "co = opts c ! n"
  from sr obtain p pr where p: "m_config_get_profile0 c pname = Some p"
    "profile_at c p = Some pr" "p_opts pr = [(''profile'', pname)]"
    by (auto simp: self_referring_def)
  from sr have st: "pname \<noteq> ''help''" "use_profiles c"
    "first_match (opts c) ''profile'' = Some n"
    "type_id (opt_type (co_opt co)) \<noteq> m_option_type_alias"
    "type_id (opt_type (co_opt co)) \<noteq> m_option_type_removed"
    "deprecation_message (co_opt co) = None"
    "M_OPT_NOCFG \<notin> opt_flags (co_opt co)"
    "0 \<le> fst (string_list_parse ext (co_opt co) ''profile'' pname)"
    "snd (string_list_parse ext (co_opt co) ''profile'' pname) = [pname]"
    by (simp_all add: self_referring_def co_def)
  have n: "n < length (opts c)" using st(3) by (rule first_match_bound)
  have fD: "opts cD = opts c" "profiles cD = profiles c" "use_profiles cD = use_profiles c"
    by (simp_all add: cD_def)
  have coD: "co_at cD n = Some co" using n by (simp add: co_at_def fD co_def)
  have res: "m_config_get_co cD ''profile'' = Some (Some n, cD)"
    using st by (intro plain_get_co) (simp_all add: fD co_def)
  have gate: "handle_set_opt_flags cD n fl' = Some (2, cD)"
    unfolding fl'_def using coD fl st(7) by (rule committing_gate)
  have nested': "m_config_set_profile_with (m_config_parse_option (Suc k) ext) (Suc k) cV pname fl'
      = Some (r1, c1)"
    using nested by (simp add: m_config_set_profile_def cV_def cD_def fl'_def)
  have pp: "parse_profile_with (m_config_parse_option (Suc k) ext) (Suc k) ext cV (co_opt co)
      ''profile'' pname True fl' = Some (r1, c1)"
    using st(1,8,9) nested' by (simp add: parse_profile_with_def)
  have uV: "use_profiles cV" by (simp add: cV_def MP_MSG_def fD st(2))
  have poc: "parse_option_co (m_config_parse_option (Suc k) ext) (Suc k) ext cD n
      ''profile'' pname fl' = Some (r1, c1)"
    using gate coD uV pp
    by (simp add: parse_option_co_def Let_def cV_def [symmetric])
  have po: "m_config_parse_option (Suc (Suc k)) ext cD ''profile'' pname fl' = Some (r1, c1)"
    using res poc by simp
  have ext: "m_config_set_option_ext_with (m_config_parse_option (Suc (Suc k)) ext) cD
      ''profile'' pname fl'
      = Some (if r1 < 0 \<and> r1 > M_OPT_EXIT then M_OPT_INVALID else r1, c1')"
    using po by (simp add: m_config_set_option_ext_with_def c1'_def)
  have pD: "profile_at cD p = Some pr"
    using p(2) profile_at_cong [OF fD(2)] by simp
  have "profiles c1' = profiles c" using keep by (simp add: c1'_def MP_MSG_def)
  then have p1: "profile_at c1' p = Some pr"
    using p(2) profile_at_cong by metis
  have round2: "set_profile_loop (m_config_parse_option (Suc (Suc k)) ext) (Suc k) c1' p 1 fl
      = Some c1'"
    using p1 p(3) by simp
  have loop: "set_profile_loop (m_config_parse_option (Suc (Suc k)) ext) (Suc (Suc k)) cD p 0 fl
      = Some c1'"
    using pD p(3) ext round2 by (simp add: fl'_def)
  show ?thesis
    using p(1) d loop
    by (simp add: m_config_set_profile_def m_config_set_profile_with_def cD_def c1'_def)
qed

lemma int_M_OPT: "M_OPT_UNKNOWN < 0" "M_OPT_EXIT < M_OPT_UNKNOWN"
  by (simp_all add: M_OPT_UNKNOWN_def M_OPT_EXIT_def)

lemma self_ref_depth:
  assumes "self_referring ext c pname n" "committing fl"
    and "profile_depth c = 20 - int j" "j \<le> 20"
  shows "m_config_set_profile (j + 2 + e) ext c pname fl =
    Some (0, c\<lparr>cfg_log := cfg_log c
              @ replicate (Suc j)
                  (Verbose_setting ''profile'' pname (insert M_SETOPT_FROM_CONFIG_FILE fl))
              @ [Warn_profile_too_deep, Err_parsing_option ''profile'' M_OPT_UNKNOWN]\<rparr>)"
  using assms
proof (induction j arbitrary: c fl)
  case 0
  define V where "V = Verbose_setting ''profile'' pname (insert M_SETOPT_FROM_CONFIG_FILE fl)"
  define cN where "cN = MP_MSG (c\<lparr>profile_depth := profile_depth c + 1\<rparr>) V"
  from "0.prems"(1) obtain p where p: "m_config_get_profile0 c pname = Some p"
    by (auto simp: self_referring_def)
  have pN: "m_config_get_profile0 cN pname = Some p"
    using p by (simp add: cN_def MP_MSG_def m_config_get_profile0_def m_config_get_profile_def)
  have dN: "MAX_PROFILE_DEPTH < profile_depth cN"
    using "0.prems"(3) by (simp add: cN_def MP_MSG_def MAX_PROFILE_DEPTH_def)
  have nested: "m_config_set_profile (Suc e) ext cN pname (insert M_SETOPT_FROM_CONFIG_FILE fl)
      = Some (M_OPT_UNKNOWN, MP_MSG cN Warn_profile_too_deep)"
    using pN dN by (rule set_profile_guard)
  have keep: "profiles (MP_MSG cN Warn_profile_too_deep) = profiles c"
    by (simp add: cN_def MP_MSG_def)
  have d: "profile_depth c \<le> MAX_PROFILE_DEPTH"
    using "0.prems"(3) by (simp add: MAX_PROFILE_DEPTH_def)
  from set_profile_level [OF "0.prems"(1,2) d nested [unfolded cN_def V_def] keep [unfolded cN_def V_def]]
  have "m_config_set_profile (Suc (Suc e)) ext c pname fl =
      Some (0, (MP_MSG (MP_MSG cN Warn_profile_too_deep)
                  (Err_parsing_option ''profile'' M_OPT_UNKNOWN))
               \<lparr>profile_depth := profile_depth cN - 1\<rparr>)"
    by (simp add: int_M_OPT cN_def V_def MP_MSG_def)
  moreover have "(MP_MSG (MP_MSG cN Warn_profile_too_deep)
                  (Err_parsing_option ''profile'' M_OPT_UNKNOWN))
               \<lparr>profile_depth := profile_depth cN - 1\<rparr>
     = c\<lparr>cfg_log := cfg_log c @ replicate (Suc 0) V
              @ [Warn_profile_too_deep, Err_parsing_option ''profile'' M_OPT_UNKNOWN]\<rparr>"
    by (cases c) (simp add: cN_def MP_MSG_def)
  ultimately show ?case by (simp add: V_def)
next
  case (Suc j)
  define fl' where "fl' = insert M_SETOPT_FROM_CONFIG_FILE fl"
  define V where "V = Verbose_setting ''profile'' pname fl'"
  define cN where "cN = MP_MSG (c\<lparr>profile_depth := profile_depth c + 1\<rparr>) V"
  define tl where "tl = [Warn_profile_too_deep, Err_parsing_option ''profile'' M_OPT_UNKNOWN]"
  have srN: "self_referring ext cN pname n"
    using Suc.prems(1) self_referring_cong [of cN c ext pname n]
    by (simp add: cN_def MP_MSG_def)
  have flN: "committing fl'" using Suc.prems(2) by (simp add: committing_def fl'_def)
  have dN: "profile_depth cN = 20 - int j"
    using Suc.prems(3) by (simp add: cN_def MP_MSG_def)
  have jj: "j \<le> 20" using Suc.prems(4) by simp
  have V': "Verbose_setting ''profile'' pname (insert M_SETOPT_FROM_CONFIG_FILE fl') = V"
    by (simp add: V_def fl'_def)
  from Suc.IH [OF srN flN dN jj]
  have nested: "m_config_set_profile (Suc (j + 1 + e)) ext cN pname fl' =
      Some (0, cN\<lparr>cfg_log := cfg_log cN @ replicate (Suc j) V @ tl\<rparr>)"
    by (simp add: V' tl_def)
  have keep: "profiles (cN\<lparr>cfg_log := cfg_log cN @ replicate (Suc j) V @ tl\<rparr>) = profiles c"
    by (simp add: cN_def MP_MSG_def)
  have d: "profile_depth c \<le> MAX_PROFILE_DEPTH"
    using Suc.prems(3) by (simp add: MAX_PROFILE_DEPTH_def)
  from set_profile_level [OF Suc.prems(1,2) d
      nested [unfolded cN_def V_def fl'_def] keep [unfolded cN_def V_def fl'_def]]
  have "m_config_set_profile (Suc (Suc (j + 1 + e))) ext c pname fl =
      Some (0, (cN\<lparr>cfg_log := cfg_log cN @ replicate (Suc j) V @ tl\<rparr>)
               \<lparr>profile_depth := profile_depth cN - 1\<rparr>)"
    by (simp add: cN_def V_def fl'_def MP_MSG_def)
  moreover have "(cN\<lparr>cfg_log := cfg_log cN @ replicate (Suc j) V @ tl\<rparr>)
               \<lparr>profile_depth := profile_depth cN - 1\<rparr>
     = c\<lparr>cfg_log := cfg_log c @ replicate (Suc (Suc j)) V @ tl\<rparr>"
    by (cases c) (simp add: cN_def MP_MSG_def)
  ultimately show ?case by (simp add: V_def fl'_def tl_def)
qed

text \<open>
  C3: \<^verbatim>\<open>m_config_set_profile\<close> on an existing profile with the depth counter above
  \<^verbatim>\<open>MAX_PROFILE_DEPTH\<close> = 20 prints the warning "Profile inclusion too deep", returns
  \<^verbatim>\<open>M_OPT_UNKNOWN\<close> and applies no pair: the config is as before but for the warning. For
  a profile whose one pair includes the profile itself, applied with the counter at
  \<open>d\<close> between 0 and 20, the call returns for every bound of at least \<open>22 - d\<close> on the
  nesting: the pair is applied \<open>21 - d\<close> times (from the counter at 0: by the call
  itself and by 20 nested calls), the next nested call finds the counter at 21, prints
  the warning once and returns \<^verbatim>\<open>M_OPT_UNKNOWN\<close>, which \<^verbatim>\<open>m_config_set_option_ext\<close> logs;
  every call that applied the pair returns 0, and the counter is as before.
\<close>

theorem profile_depth_guard:
  "(m_config_get_profile0 config name = Some p \<and> MAX_PROFILE_DEPTH < profile_depth config
      \<longrightarrow> m_config_set_profile k ext config name flags
            = Some (M_OPT_UNKNOWN, MP_MSG config Warn_profile_too_deep))
   \<and> (self_referring ext config name n \<and> committing flags
        \<and> 0 \<le> profile_depth config \<and> profile_depth config \<le> MAX_PROFILE_DEPTH
        \<and> nat (22 - profile_depth config) \<le> k
      \<longrightarrow> m_config_set_profile k ext config name flags
            = Some (0, config\<lparr>cfg_log := cfg_log config
                      @ replicate (nat (21 - profile_depth config))
                          (Verbose_setting ''profile'' name
                             (insert M_SETOPT_FROM_CONFIG_FILE flags))
                      @ [Warn_profile_too_deep,
                         Err_parsing_option ''profile'' M_OPT_UNKNOWN]\<rparr>))"
proof (intro conjI impI)
  assume "m_config_get_profile0 config name = Some p \<and> MAX_PROFILE_DEPTH < profile_depth config"
  then show "m_config_set_profile k ext config name flags
            = Some (M_OPT_UNKNOWN, MP_MSG config Warn_profile_too_deep)"
    using set_profile_guard [of config name p k ext flags] by simp
next
  assume h: "self_referring ext config name n \<and> committing flags
        \<and> 0 \<le> profile_depth config \<and> profile_depth config \<le> MAX_PROFILE_DEPTH
        \<and> nat (22 - profile_depth config) \<le> k"
  define j where "j = nat (20 - profile_depth config)"
  define e where "e = k - (j + 2)"
  from h have h1: "0 \<le> profile_depth config" "profile_depth config \<le> 20"
    "nat (22 - profile_depth config) \<le> k"
    by (simp_all add: MAX_PROFILE_DEPTH_def)
  have d: "profile_depth config = 20 - int j" "j \<le> 20"
    using h1(1,2) by (simp_all add: j_def)
  have "j + 2 \<le> k" using h1 by (simp add: j_def)
  then have k: "k = j + 2 + e"
    by (simp add: e_def)
  have r: "nat (21 - profile_depth config) = Suc j"
    using d by simp
  from h have sr: "self_referring ext config name n" and fl: "committing flags" by simp_all
  show "m_config_set_profile k ext config name flags
            = Some (0, config\<lparr>cfg_log := cfg_log config
                      @ replicate (nat (21 - profile_depth config))
                          (Verbose_setting ''profile'' name
                             (insert M_SETOPT_FROM_CONFIG_FILE flags))
                      @ [Warn_profile_too_deep,
                         Err_parsing_option ''profile'' M_OPT_UNKNOWN]\<rparr>)"
    unfolding r k by (rule self_ref_depth [OF sr fl d])
qed

lemma loop_config_self_referring: "self_referring example_ext loop_config ''A'' 0"
  by (simp add: self_referring_def loop_config_def mk_config_def mk_co_def mk_opt_def
      string_list_type_def example_ext_def m_config_get_profile0_def m_config_get_profile_def
      profile_at_def co_matches_def)

theorem profile_depth_guard_witness:
  "m_config_set_profile 22 example_ext loop_config ''A'' {}
     = Some (0, loop_config\<lparr>cfg_log :=
                replicate 21 (Verbose_setting ''profile'' ''A'' {M_SETOPT_FROM_CONFIG_FILE})
                @ [Warn_profile_too_deep, Err_parsing_option ''profile'' M_OPT_UNKNOWN]\<rparr>)
   \<and> m_config_set_profile 1 example_ext (loop_config\<lparr>profile_depth := 21\<rparr>) ''A'' {}
       = Some (M_OPT_UNKNOWN, MP_MSG (loop_config\<lparr>profile_depth := 21\<rparr>) Warn_profile_too_deep)"
proof -
  have c: "committing {}" by (simp add: committing_def)
  have d: "profile_depth loop_config = 0" "cfg_log loop_config = []"
    by (simp_all add: loop_config_def mk_config_def)
  have p: "m_config_get_profile0 (loop_config\<lparr>profile_depth := 21\<rparr>) ''A'' = Some 0"
    by (simp add: loop_config_def m_config_get_profile0_def m_config_get_profile_def)
  from profile_depth_guard [of loop_config "''A''" 0 22 example_ext "{}" 0,
      THEN conjunct2] loop_config_self_referring c d
  have "m_config_set_profile 22 example_ext loop_config ''A'' {}
     = Some (0, loop_config\<lparr>cfg_log :=
                replicate 21 (Verbose_setting ''profile'' ''A'' {M_SETOPT_FROM_CONFIG_FILE})
                @ [Warn_profile_too_deep, Err_parsing_option ''profile'' M_OPT_UNKNOWN]\<rparr>)"
    by (simp add: MAX_PROFILE_DEPTH_def)
  moreover
  from profile_depth_guard [of "loop_config\<lparr>profile_depth := 21\<rparr>" "''A''" 0 1 example_ext "{}",
      THEN conjunct1] p
  have "m_config_set_profile 1 example_ext (loop_config\<lparr>profile_depth := 21\<rparr>) ''A'' {}
       = Some (M_OPT_UNKNOWN, MP_MSG (loop_config\<lparr>profile_depth := 21\<rparr>) Warn_profile_too_deep)"
    by (simp add: MAX_PROFILE_DEPTH_def)
  ultimately show ?thesis by simp
qed

end
